theory Spec2Isabelle
  imports Main "HOL-Library.Word"
begin

unbundle bit_operations_syntax

section \<open>The nRF52 TWIM I2C master driver (cpu/nrf5x_common_pip/periph/i2c_nrf52_nrf9160.c)\<close>

subsection \<open>Constants the driver takes from headers\<close>

text \<open>
  The register index macros \<^verbatim>\<open>PIP_NRF_TWIM_TWIM1_..._INDEX\<close> the driver names. The
  poll loop of \<^verbatim>\<open>finish\<close> names \<^verbatim>\<open>PIP_NRF_TWIM_TWIM1_EVENTS_ERROR\<close>, without the
  \<^verbatim>\<open>_INDEX\<close> suffix; it is kept as a name of its own.
\<close>

datatype twim_reg =
    INTENSET_INDEX | INTENCLR_INDEX
  | EVENTS_STOPPED_INDEX | EVENTS_ERROR_INDEX | EVENTS_ERROR
  | ERRORSRC_INDEX
  | TXD_MAXAMOUNT_INDEX | TXD_MAXCNT_INDEX | TXD_PTR_INDEX
  | RXD_PTR_INDEX | RXD_MAXCNT_INDEX
  | ADDRESS_INDEX | SHORTS_INDEX
  | TASKS_STARTRX_INDEX | TASKS_STARTTX_INDEX

text \<open>
  The values of the macros are declared in headers outside the driver (periph/i2c.h, errno.h,
  the vendor header, the Pip register tables, cpu_conf.h); the driver is modelled over
  any choice of them. \<open>tx_buf\<close> is the address of the static 256-byte array
  \<^verbatim>\<open>tx_buf\<close>, \<open>reg_local\<close> the address of the parameter \<^verbatim>\<open>reg\<close> of
  \<^verbatim>\<open>i2c_read_regs\<close>, whose address the function passes to the hardware.
\<close>

record platform =
  I2C_NOSTART :: "8 word"
  I2C_ADDR10 :: "8 word"
  I2C_NOSTOP :: "8 word"
  I2C_REG16 :: "8 word"
  EOPNOTSUPP :: int
  ENXIO :: int
  EIO :: int
  TWIM_INTEN_STOPPED_Msk :: "32 word"
  TWIM_INTEN_ERROR_Msk :: "32 word"
  TWIM_INTEN_LASTTX_Msk :: "32 word"
  TWIM_ERRORSRC_ANACK_Msk :: "32 word"
  TWIM_ERRORSRC_DNACK_Msk :: "32 word"
  TWIM_SHORTS_LASTTX_STOP_Msk :: "32 word"
  TWIM_SHORTS_LASTRX_STOP_Msk :: "32 word"
  TWIM_SHORTS_LASTTX_STARTRX_Msk :: "32 word"
  PIP_NRF_TWIM_TWIM1_BASE :: "32 word"
  PIP_NRF_TWIM_TWIM1 :: "twim_reg \<Rightarrow> 32 word"
  CPU_RAM_BASE :: "32 word"
  CPU_RAM_SIZE :: "32 word"
  tx_buf :: "32 word"
  reg_local :: "32 word"

text \<open>boards/dwm1001_pip/include/periph_conf.h: one bus, on TWIM1.\<close>

record i2c_conf_t =
  dev_base :: "32 word"

definition i2c_config :: "platform \<Rightarrow> i2c_conf_t list" where
  "i2c_config k = [\<lparr>dev_base = PIP_NRF_TWIM_TWIM1_BASE k\<rparr>]"

definition I2C_NUMOF :: "platform \<Rightarrow> nat" where
  "I2C_NUMOF k = length (i2c_config k)"

definition bus :: "platform \<Rightarrow> nat \<Rightarrow> 32 word" where
  "bus k dev = dev_base (i2c_config k ! dev)"

definition reg :: "platform \<Rightarrow> nat \<Rightarrow> twim_reg \<Rightarrow> 32 word" where
  "reg k dev r = bus k dev + PIP_NRF_TWIM_TWIM1 k r"

subsection \<open>Machine state and the environment\<close>

datatype mutex = Buffer_lock | Busy nat

datatype event =
    In "32 word" "32 word"
  | Out "32 word" "32 word"
  | Lock mutex
  | Unlock mutex

text \<open>
  \<open>mem\<close> is byte-addressed memory (caller buffers, \<^verbatim>\<open>tx_buf\<close>, the stack slot of
  \<^verbatim>\<open>reg\<close>). \<open>trace\<close> records every privileged register access and every mutex
  operation, in program order. The hardware is the environment: \<open>reads\<close> is the list of
  values it will answer to the coming \<^verbatim>\<open>Pip_in\<close> calls, and \<open>irq\<close> says whether it
  raises the unmasked interrupt while the thread waits on the completion signal.
\<close>

record state =
  mem :: "32 word \<Rightarrow> 8 word"
  locked :: "mutex \<Rightarrow> bool"
  trace :: "event list"
  reads :: "32 word list"
  irq :: bool

text \<open>
  A call returns a value, or it does not return: an assertion fails, the thread
  blocks for ever on a mutex, or the hardware's answers run out (\<open>No_reply\<close>, the
  fuel of the poll loop).
\<close>

datatype halt = Assert_failed | Blocked | No_reply

datatype 'a result = Val 'a | Halt halt

type_synonym 'a prog = "state \<Rightarrow> 'a result \<times> state"

definition return :: "'a \<Rightarrow> 'a prog" where
  "return x s = (Val x, s)"

definition then_do :: "'a prog \<Rightarrow> ('a \<Rightarrow> 'b prog) \<Rightarrow> 'b prog" where
  "then_do m f s = (case m s of (Val x, s') \<Rightarrow> f x s' | (Halt h, s') \<Rightarrow> (Halt h, s'))"

definition assert :: "bool \<Rightarrow> unit prog" where
  "assert b s = (if b then (Val (), s) else (Halt Assert_failed, s))"

definition Pip_out :: "32 word \<Rightarrow> 32 word \<Rightarrow> unit prog" where
  "Pip_out a v s = (Val (), s\<lparr>trace := trace s @ [Out a v]\<rparr>)"

definition Pip_in :: "32 word \<Rightarrow> (32 word) prog" where
  "Pip_in a s =
     (case reads s of
        [] \<Rightarrow> (Halt No_reply, s)
      | v # vs \<Rightarrow> (Val v, s\<lparr>trace := trace s @ [In a v], reads := vs\<rparr>))"

definition mutex_lock :: "mutex \<Rightarrow> unit prog" where
  "mutex_lock m s =
     (if locked s m then (Halt Blocked, s)
      else (Val (), s\<lparr>locked := (locked s)(m := True), trace := trace s @ [Lock m]\<rparr>))"

definition mutex_unlock :: "mutex \<Rightarrow> unit prog" where
  "mutex_unlock m s =
     (Val (), s\<lparr>locked := (locked s)(m := False), trace := trace s @ [Unlock m]\<rparr>)"

text \<open>\<^verbatim>\<open>memcpy(dst, src, n)\<close>, for regions that do not overlap.\<close>

definition copied :: "32 word \<Rightarrow> 32 word \<Rightarrow> 32 word \<Rightarrow> (32 word \<Rightarrow> 8 word) \<Rightarrow> 32 word \<Rightarrow> 8 word" where
  "copied dst src n m a = (if a - dst < n then m (src + (a - dst)) else m a)"

definition memcpy :: "32 word \<Rightarrow> 32 word \<Rightarrow> 32 word \<Rightarrow> unit prog" where
  "memcpy dst src n s = (Val (), s\<lparr>mem := copied dst src n (mem s)\<rparr>)"

definition store8 :: "32 word \<Rightarrow> 8 word \<Rightarrow> unit prog" where
  "store8 a v s = (Val (), s\<lparr>mem := (mem s)(a := v)\<rparr>)"

text \<open>A \<^verbatim>\<open>uint16_t\<close> in memory on the little-endian Cortex-M4: low byte first.\<close>

definition store16 :: "32 word \<Rightarrow> 16 word \<Rightarrow> unit prog" where
  "store16 a v s =
     (Val (), s\<lparr>mem := (mem s)(a := ucast v, a + 1 := ucast (drop_bit 8 v))\<rparr>)"

text \<open>
  Modelled from the spec: \<^verbatim>\<open>htons\<close> of byteorder.h, which is not among the sources. The
  register selector is "big-endian on the wire"; on the little-endian target the
  conversion to network order swaps the two bytes.
\<close>

definition htons :: "16 word \<Rightarrow> 16 word" where
  "htons x = push_bit 8 x OR drop_bit 8 x"

subsection \<open>The interrupt handler\<close>

definition i2c_isr_handler :: "platform \<Rightarrow> nat \<Rightarrow> unit prog" where
  "i2c_isr_handler k dev =
     then_do (Pip_out (reg k dev INTENCLR_INDEX)
        (TWIM_INTEN_STOPPED_Msk k OR TWIM_INTEN_ERROR_Msk k OR TWIM_INTEN_LASTTX_Msk k)) (\<lambda>_.
     mutex_unlock (Busy dev))"

text \<open>
  The handler runs in interrupt context while the thread is on its way to, or blocked
  in, \<^verbatim>\<open>mutex_lock(&busy[dev])\<close>. The model runs it just before the lock is taken, when
  the hardware raises the interrupt.
\<close>

definition interrupt :: "platform \<Rightarrow> nat \<Rightarrow> unit prog" where
  "interrupt k dev s = (if irq s then i2c_isr_handler k dev s else (Val (), s))"

subsection \<open>finish: wait and classify\<close>

text \<open>
  The loop of lines 138-139. The operands of \<^verbatim>\<open>!=\<close> are read left to right;
  \<^verbatim>\<open>&&\<close> reads the error register only when the counts differ.
\<close>

function poll_lasttx :: "platform \<Rightarrow> nat \<Rightarrow> unit prog" where
  "poll_lasttx k dev s =
     (case Pip_in (reg k dev TXD_MAXAMOUNT_INDEX) s of
        (Halt h, s1) \<Rightarrow> (Halt h, s1)
      | (Val amount, s1) \<Rightarrow>
          (case Pip_in (reg k dev TXD_MAXCNT_INDEX) s1 of
             (Halt h, s2) \<Rightarrow> (Halt h, s2)
           | (Val maxcnt, s2) \<Rightarrow>
               if amount \<noteq> maxcnt then
                 (case Pip_in (reg k dev EVENTS_ERROR) s2 of
                    (Halt h, s3) \<Rightarrow> (Halt h, s3)
                  | (Val err, s3) \<Rightarrow>
                      if err = 0 then poll_lasttx k dev s3 else (Val (), s3))
               else (Val (), s2)))"
  by pat_completeness auto
termination
proof (relation "measure (\<lambda>(k, dev, s). length (reads s))")
  show "wf (measure (\<lambda>(k, dev, s). length (reads s)))"
    by simp
next
  fix k :: platform and dev :: nat and s x1 s1 amount x2 s2 maxcnt x3 s3 err
  assume a1: "(x1, s1) = Pip_in (reg k dev TXD_MAXAMOUNT_INDEX) s"
    and v1: "x1 = Val amount"
    and a2: "(x2, s2) = Pip_in (reg k dev TXD_MAXCNT_INDEX) s1"
    and v2: "x2 = Val maxcnt"
    and a3: "(x3, s3) = Pip_in (reg k dev EVENTS_ERROR) s2"
    and v3: "x3 = Val err"
  from a1 v1 have "length (reads s1) < length (reads s)"
    by (auto simp: Pip_in_def split: list.splits)
  moreover from a2 v2 have "length (reads s2) < length (reads s1)"
    by (auto simp: Pip_in_def split: list.splits)
  moreover from a3 v3 have "length (reads s3) < length (reads s2)"
    by (auto simp: Pip_in_def split: list.splits)
  ultimately show "((k, dev, s3), (k, dev, s)) \<in> measure (\<lambda>(k, dev, s). length (reads s))"
    by simp
qed

declare poll_lasttx.simps [simp del]

text \<open>
  Lines 123-124: unmask the interrupts and block on the completion signal until the
  interrupt handler releases it.
\<close>

definition finish_block :: "platform \<Rightarrow> nat \<Rightarrow> 32 word \<Rightarrow> unit prog" where
  "finish_block k dev inten_success_flag =
     then_do (Pip_out (reg k dev INTENSET_INDEX)
                (inten_success_flag OR TWIM_INTEN_ERROR_Msk k)) (\<lambda>_.
     then_do (interrupt k dev) (\<lambda>_.
     mutex_lock (Busy dev)))"

text \<open>Lines 126-140: clear the stop event, and poll when the success condition is LASTTX.\<close>

definition finish_settle :: "platform \<Rightarrow> nat \<Rightarrow> 32 word \<Rightarrow> unit prog" where
  "finish_settle k dev inten_success_flag =
     then_do (Pip_in (reg k dev EVENTS_STOPPED_INDEX)) (\<lambda>stopped.
     then_do (if stopped \<noteq> 0 then Pip_out (reg k dev EVENTS_STOPPED_INDEX) 0
              else return ()) (\<lambda>_.
     if inten_success_flag AND TWIM_INTEN_LASTTX_Msk k \<noteq> 0 then poll_lasttx k dev
     else return ()))"

definition finish_wait :: "platform \<Rightarrow> nat \<Rightarrow> 32 word \<Rightarrow> unit prog" where
  "finish_wait k dev inten_success_flag =
     then_do (finish_block k dev inten_success_flag) (\<lambda>_.
     finish_settle k dev inten_success_flag)"

text \<open>Lines 142-156: classify the error.\<close>

definition finish_classify :: "platform \<Rightarrow> nat \<Rightarrow> int prog" where
  "finish_classify k dev =
     then_do (Pip_in (reg k dev EVENTS_ERROR_INDEX)) (\<lambda>err.
     if err \<noteq> 0 then
       then_do (Pip_out (reg k dev EVENTS_ERROR_INDEX) 0) (\<lambda>_.
       then_do (Pip_in (reg k dev ERRORSRC_INDEX)) (\<lambda>src1.
       if src1 AND TWIM_ERRORSRC_ANACK_Msk k \<noteq> 0 then
         then_do (Pip_out (reg k dev ERRORSRC_INDEX) (TWIM_ERRORSRC_ANACK_Msk k)) (\<lambda>_.
         return (- ENXIO k))
       else
         then_do (Pip_in (reg k dev ERRORSRC_INDEX)) (\<lambda>src2.
         if src2 AND TWIM_ERRORSRC_DNACK_Msk k \<noteq> 0 then
           then_do (Pip_out (reg k dev ERRORSRC_INDEX) (TWIM_ERRORSRC_DNACK_Msk k)) (\<lambda>_.
           return (- EIO k))
         else return 0)))
     else return 0)"

definition finish :: "platform \<Rightarrow> nat \<Rightarrow> 32 word \<Rightarrow> int prog" where
  "finish k dev inten_success_flag =
     then_do (finish_wait k dev inten_success_flag) (\<lambda>_. finish_classify k dev)"

subsection \<open>The transfer operations\<close>

text \<open>
  \<open>dev\<close> is the bus identifier (\<^verbatim>\<open>i2c_t\<close>, an unsigned integer that is only compared
  and used as an index), \<open>addr\<close> the \<^verbatim>\<open>uint16_t\<close> device address, \<open>data\<close> the pointer
  as a 32-bit address, \<open>len\<close> the \<^verbatim>\<open>size_t\<close> length, \<open>flags\<close> the \<^verbatim>\<open>uint8_t\<close> flag
  set, and \<open>rg\<close> the \<^verbatim>\<open>uint16_t\<close> parameter \<^verbatim>\<open>reg\<close>. The value returned is the C
  \<^verbatim>\<open>int\<close>. The assertions are those of the source, in its order; a failed one ends the
  call with \<open>Assert_failed\<close>.

  \<^verbatim>\<open>i2c_read_regs\<close> passes the address of its parameter \<^verbatim>\<open>reg\<close> to the hardware, so the
  parameter lives in memory, at \<open>reg_local\<close>: the model writes its two bytes there, after
  \<^verbatim>\<open>htons\<close> when the 16-bit-register flag is set.
\<close>

definition direct_i2c_write_bytes ::
  "platform \<Rightarrow> nat \<Rightarrow> 16 word \<Rightarrow> 32 word \<Rightarrow> 32 word \<Rightarrow> 8 word \<Rightarrow> int prog" where
  "direct_i2c_write_bytes k dev addr data len flags =
     then_do (assert (dev < I2C_NUMOF k \<and> data \<noteq> 0 \<and> 0 < len \<and> len < 256)) (\<lambda>_.
     if flags AND (I2C_NOSTART k OR I2C_ADDR10 k) \<noteq> 0 then return (- EOPNOTSUPP k)
     else
       then_do (Pip_out (reg k dev ADDRESS_INDEX) (ucast addr)) (\<lambda>_.
       then_do (Pip_out (reg k dev TXD_PTR_INDEX) data) (\<lambda>_.
       then_do (Pip_out (reg k dev TXD_MAXCNT_INDEX) (ucast (ucast len :: 8 word))) (\<lambda>_.
       then_do (if flags AND I2C_NOSTOP k = 0 then
                  then_do (Pip_out (reg k dev SHORTS_INDEX) (TWIM_SHORTS_LASTTX_STOP_Msk k)) (\<lambda>_.
                  return (TWIM_INTEN_STOPPED_Msk k))
                else
                  then_do (Pip_out (reg k dev SHORTS_INDEX) 0) (\<lambda>_.
                  return (TWIM_INTEN_LASTTX_Msk k))) (\<lambda>inten_success_flag.
       then_do (Pip_out (reg k dev TASKS_STARTTX_INDEX) 1) (\<lambda>_.
       finish k dev inten_success_flag))))))"

definition in_ram :: "platform \<Rightarrow> 32 word \<Rightarrow> bool" where
  "in_ram k data \<longleftrightarrow> CPU_RAM_BASE k \<le> data \<and> data < CPU_RAM_BASE k + CPU_RAM_SIZE k"

definition i2c_write_bytes ::
  "platform \<Rightarrow> nat \<Rightarrow> 16 word \<Rightarrow> 32 word \<Rightarrow> 32 word \<Rightarrow> 8 word \<Rightarrow> int prog" where
  "i2c_write_bytes k dev addr data len flags =
     (if in_ram k data then direct_i2c_write_bytes k dev addr data len flags
      else
        then_do (assert (0 < len \<and> len < 256)) (\<lambda>_.
        then_do (mutex_lock Buffer_lock) (\<lambda>_.
        then_do (memcpy (tx_buf k) data len) (\<lambda>_.
        then_do (direct_i2c_write_bytes k dev addr (tx_buf k) len flags) (\<lambda>result.
        then_do (mutex_unlock Buffer_lock) (\<lambda>_.
        return result))))))"

definition i2c_write_regs ::
  "platform \<Rightarrow> nat \<Rightarrow> 16 word \<Rightarrow> 16 word \<Rightarrow> 32 word \<Rightarrow> 32 word \<Rightarrow> 8 word \<Rightarrow> int prog" where
  "i2c_write_regs k dev addr rg data len flags =
     then_do (assert (dev < I2C_NUMOF k \<and> data \<noteq> 0 \<and> 0 < len \<and> len < 253)) (\<lambda>_.
     if flags AND (I2C_NOSTART k OR I2C_ADDR10 k) \<noteq> 0 then return (- EOPNOTSUPP k)
     else
       then_do (mutex_lock Buffer_lock) (\<lambda>_.
       then_do (if flags AND I2C_REG16 k \<noteq> 0 then
                  then_do (store8 (tx_buf k) (ucast (drop_bit 8 rg))) (\<lambda>_.
                  then_do (store8 (tx_buf k + 1) (ucast (rg AND 0xFF))) (\<lambda>_.
                  return (2 :: 8 word)))
                else
                  then_do (store8 (tx_buf k) (ucast rg)) (\<lambda>_.
                  return (1 :: 8 word))) (\<lambda>reg_addr_len.
       then_do (memcpy (tx_buf k + ucast reg_addr_len) data len) (\<lambda>_.
       then_do (direct_i2c_write_bytes k dev addr (tx_buf k) (ucast reg_addr_len + len) flags)
         (\<lambda>ret.
       then_do (mutex_unlock Buffer_lock) (\<lambda>_.
       return ret))))))"

definition i2c_read_bytes ::
  "platform \<Rightarrow> nat \<Rightarrow> 16 word \<Rightarrow> 32 word \<Rightarrow> 32 word \<Rightarrow> 8 word \<Rightarrow> int prog" where
  "i2c_read_bytes k dev addr data len flags =
     then_do (assert (dev < I2C_NUMOF k \<and> data \<noteq> 0 \<and> 0 < len \<and> len < 256)) (\<lambda>_.
     if flags AND (I2C_NOSTART k OR I2C_ADDR10 k OR I2C_NOSTOP k) \<noteq> 0
     then return (- EOPNOTSUPP k)
     else
       then_do (Pip_out (reg k dev ADDRESS_INDEX) (ucast addr)) (\<lambda>_.
       then_do (Pip_out (reg k dev RXD_PTR_INDEX) data) (\<lambda>_.
       then_do (Pip_out (reg k dev RXD_MAXCNT_INDEX) (ucast (ucast len :: 8 word))) (\<lambda>_.
       then_do (Pip_out (reg k dev SHORTS_INDEX) (TWIM_SHORTS_LASTRX_STOP_Msk k)) (\<lambda>_.
       then_do (Pip_out (reg k dev TASKS_STARTRX_INDEX) 1) (\<lambda>_.
       finish k dev (TWIM_INTEN_STOPPED_Msk k)))))))"

definition i2c_read_regs ::
  "platform \<Rightarrow> nat \<Rightarrow> 16 word \<Rightarrow> 16 word \<Rightarrow> 32 word \<Rightarrow> 32 word \<Rightarrow> 8 word \<Rightarrow> int prog" where
  "i2c_read_regs k dev addr rg data len flags =
     then_do (assert (dev < I2C_NUMOF k \<and> data \<noteq> 0 \<and> 0 < len \<and> len < 256)) (\<lambda>_.
     if flags AND (I2C_NOSTART k OR I2C_ADDR10 k OR I2C_NOSTOP k) \<noteq> 0
     then return (- EOPNOTSUPP k)
     else
       then_do (Pip_out (reg k dev ADDRESS_INDEX) (ucast addr)) (\<lambda>_.
       then_do (if flags AND I2C_REG16 k \<noteq> 0 then
                  then_do (store16 (reg_local k) (htons rg)) (\<lambda>_.
                  Pip_out (reg k dev TXD_MAXCNT_INDEX) 2)
                else
                  then_do (store16 (reg_local k) rg) (\<lambda>_.
                  Pip_out (reg k dev TXD_MAXCNT_INDEX) 1)) (\<lambda>_.
       then_do (Pip_out (reg k dev TXD_PTR_INDEX) (reg_local k)) (\<lambda>_.
       then_do (Pip_out (reg k dev RXD_PTR_INDEX) data) (\<lambda>_.
       then_do (Pip_out (reg k dev RXD_MAXCNT_INDEX) (ucast (ucast len :: 8 word))) (\<lambda>_.
       then_do (Pip_out (reg k dev SHORTS_INDEX)
                  (TWIM_SHORTS_LASTTX_STARTRX_Msk k OR TWIM_SHORTS_LASTRX_STOP_Msk k)) (\<lambda>_.
       then_do (Pip_out (reg k dev TASKS_STARTTX_INDEX) 1) (\<lambda>_.
       finish k dev (TWIM_INTEN_STOPPED_Msk k)))))))))"

subsection \<open>A concrete platform and starting state\<close>

text \<open>
  One choice of the header constants, used to run the model on concrete inputs: the flag
  values of RIOT's periph/i2c.h, newlib's errno values and the nRF52832's TWIM masks,
  register offsets and RAM range. None of them is among the sources of the driver.
\<close>

fun nrf52_index :: "twim_reg \<Rightarrow> 32 word" where
  "nrf52_index TASKS_STARTRX_INDEX = 0x000"
| "nrf52_index TASKS_STARTTX_INDEX = 0x008"
| "nrf52_index EVENTS_STOPPED_INDEX = 0x104"
| "nrf52_index EVENTS_ERROR_INDEX = 0x124"
| "nrf52_index EVENTS_ERROR = 0x124"
| "nrf52_index SHORTS_INDEX = 0x200"
| "nrf52_index INTENSET_INDEX = 0x304"
| "nrf52_index INTENCLR_INDEX = 0x308"
| "nrf52_index ERRORSRC_INDEX = 0x4C4"
| "nrf52_index RXD_PTR_INDEX = 0x534"
| "nrf52_index RXD_MAXCNT_INDEX = 0x538"
| "nrf52_index TXD_PTR_INDEX = 0x544"
| "nrf52_index TXD_MAXCNT_INDEX = 0x548"
| "nrf52_index TXD_MAXAMOUNT_INDEX = 0x54C"
| "nrf52_index ADDRESS_INDEX = 0x588"

definition dwm1001 :: platform where
  "dwm1001 = \<lparr>
     I2C_NOSTART = 0x08, I2C_ADDR10 = 0x01, I2C_NOSTOP = 0x04, I2C_REG16 = 0x02,
     EOPNOTSUPP = 95, ENXIO = 6, EIO = 5,
     TWIM_INTEN_STOPPED_Msk = 0x2, TWIM_INTEN_ERROR_Msk = 0x200,
     TWIM_INTEN_LASTTX_Msk = 0x1000000,
     TWIM_ERRORSRC_ANACK_Msk = 0x2, TWIM_ERRORSRC_DNACK_Msk = 0x4,
     TWIM_SHORTS_LASTTX_STOP_Msk = 0x200, TWIM_SHORTS_LASTRX_STOP_Msk = 0x1000,
     TWIM_SHORTS_LASTTX_STARTRX_Msk = 0x80,
     PIP_NRF_TWIM_TWIM1_BASE = 0x40004000,
     PIP_NRF_TWIM_TWIM1 = nrf52_index,
     CPU_RAM_BASE = 0x20000000, CPU_RAM_SIZE = 0x10000,
     tx_buf = 0x20000400, reg_local = 0x2000FF00 \<rparr>"

text \<open>
  The state between two transfers: the transaction buffer is free, every completion
  signal is locked (as \<^verbatim>\<open>i2c_init\<close> and every completed \<^verbatim>\<open>finish\<close> leave it), nothing has
  happened yet. \<open>m\<close> is the memory, \<open>rs\<close> the hardware's coming answers.
\<close>

definition idle :: "(32 word \<Rightarrow> 8 word) \<Rightarrow> 32 word list \<Rightarrow> state" where
  "idle m rs = \<lparr> mem = m, locked = (\<lambda>x. x \<noteq> Buffer_lock), trace = [], reads = rs, irq = True \<rparr>"

text \<open>A memory holding the bytes \<open>bs\<close> from address \<open>a\<close> on, zero elsewhere.\<close>

definition bytes_at :: "32 word \<Rightarrow> 8 word list \<Rightarrow> 32 word \<Rightarrow> 8 word" where
  "bytes_at a bs x = (if unat (x - a) < length bs then bs ! unat (x - a) else 0)"

subsection \<open>Notions used in the statements\<close>

text \<open>The events a call has added to the trace.\<close>

definition new_events :: "state \<Rightarrow> state \<Rightarrow> event list" where
  "new_events s s' = drop (length (trace s)) (trace s')"

text \<open>The values written to the register \<open>a\<close>, in order.\<close>

fun writes_to :: "32 word \<Rightarrow> event list \<Rightarrow> 32 word list" where
  "writes_to a [] = []"
| "writes_to a (Out b v # evs) = (if a = b then v # writes_to a evs else writes_to a evs)"
| "writes_to a (In b v # evs) = writes_to a evs"
| "writes_to a (Lock m # evs) = writes_to a evs"
| "writes_to a (Unlock m # evs) = writes_to a evs"

text \<open>The register accesses \<^verbatim>\<open>finish\<close> makes once it holds the completion signal.\<close>

fun io_event :: "platform \<Rightarrow> nat \<Rightarrow> event \<Rightarrow> bool" where
  "io_event k dev (In a v) \<longleftrightarrow>
     a \<in> reg k dev ` {EVENTS_STOPPED_INDEX, TXD_MAXAMOUNT_INDEX, TXD_MAXCNT_INDEX,
                      EVENTS_ERROR, EVENTS_ERROR_INDEX, ERRORSRC_INDEX}"
| "io_event k dev (Out a v) \<longleftrightarrow>
     a \<in> reg k dev ` {EVENTS_STOPPED_INDEX, EVENTS_ERROR_INDEX, ERRORSRC_INDEX}"
| "io_event k dev (Lock m) \<longleftrightarrow> False"
| "io_event k dev (Unlock m) \<longleftrightarrow> False"

text \<open>
  The same without the registers of the poll loop: the accesses \<^verbatim>\<open>finish\<close> makes when
  the success condition is the stop event.
\<close>

fun quiet_event :: "platform \<Rightarrow> nat \<Rightarrow> event \<Rightarrow> bool" where
  "quiet_event k dev (In a v) \<longleftrightarrow>
     a \<in> reg k dev ` {EVENTS_STOPPED_INDEX, EVENTS_ERROR_INDEX, ERRORSRC_INDEX}"
| "quiet_event k dev (Out a v) \<longleftrightarrow>
     a \<in> reg k dev ` {EVENTS_STOPPED_INDEX, EVENTS_ERROR_INDEX, ERRORSRC_INDEX}"
| "quiet_event k dev (Lock m) \<longleftrightarrow> False"
| "quiet_event k dev (Unlock m) \<longleftrightarrow> False"

text \<open>
  \<open>extends P s s'\<close>: from \<open>s\<close> to \<open>s'\<close> only events satisfying \<open>P\<close> were added to the
  trace (and answers of the hardware consumed).
\<close>

definition extends :: "(event \<Rightarrow> bool) \<Rightarrow> state \<Rightarrow> state \<Rightarrow> bool" where
  "extends P s s' \<longleftrightarrow>
     mem s' = mem s \<and> irq s' = irq s \<and> locked s' = locked s
     \<and> (\<exists>evs. trace s' = trace s @ evs \<and> list_all P evs)"

text \<open>
  The events of the first three steps of \<^verbatim>\<open>finish\<close>: the unmasking, the interrupt
  handler when the interrupt is raised, and the acquisition of the completion signal
  when it is or becomes free.
\<close>

definition wait_events :: "platform \<Rightarrow> nat \<Rightarrow> 32 word \<Rightarrow> state \<Rightarrow> event list" where
  "wait_events k dev inten_success_flag s =
     Out (reg k dev INTENSET_INDEX) (inten_success_flag OR TWIM_INTEN_ERROR_Msk k)
     # (if irq s
        then [Out (reg k dev INTENCLR_INDEX)
                (TWIM_INTEN_STOPPED_Msk k OR TWIM_INTEN_ERROR_Msk k OR TWIM_INTEN_LASTTX_Msk k),
              Unlock (Busy dev)]
        else [])
     @ (if irq s \<or> \<not> locked s (Busy dev) then [Lock (Busy dev)] else [])"

text \<open>
  The five register writes by which \<^verbatim>\<open>direct_i2c_write_bytes\<close> programs and starts a
  transmission (lines 388-400), and the success condition it passes to \<^verbatim>\<open>finish\<close>.
\<close>

definition write_setup :: "platform \<Rightarrow> nat \<Rightarrow> 16 word \<Rightarrow> 32 word \<Rightarrow> 32 word \<Rightarrow> 8 word \<Rightarrow> event list" where
  "write_setup k dev addr data len flags =
     [Out (reg k dev ADDRESS_INDEX) (ucast addr),
      Out (reg k dev TXD_PTR_INDEX) data,
      Out (reg k dev TXD_MAXCNT_INDEX) (ucast (ucast len :: 8 word)),
      Out (reg k dev SHORTS_INDEX)
        (if flags AND I2C_NOSTOP k = 0 then TWIM_SHORTS_LASTTX_STOP_Msk k else 0),
      Out (reg k dev TASKS_STARTTX_INDEX) 1]"

definition write_success_flag :: "platform \<Rightarrow> 8 word \<Rightarrow> 32 word" where
  "write_success_flag k flags =
     (if flags AND I2C_NOSTOP k = 0 then TWIM_INTEN_STOPPED_Msk k else TWIM_INTEN_LASTTX_Msk k)"

text \<open>The length in bytes of the register selector (\<^verbatim>\<open>reg_addr_len\<close>).\<close>

definition reg_addr_len :: "platform \<Rightarrow> 8 word \<Rightarrow> 32 word" where
  "reg_addr_len k flags = (if flags AND I2C_REG16 k \<noteq> 0 then 2 else 1)"

text \<open>
  The seven register writes by which \<^verbatim>\<open>i2c_read_regs\<close> programs and starts a register
  read (lines 331-348).
\<close>

definition read_regs_setup ::
  "platform \<Rightarrow> nat \<Rightarrow> 16 word \<Rightarrow> 32 word \<Rightarrow> 32 word \<Rightarrow> 8 word \<Rightarrow> event list" where
  "read_regs_setup k dev addr data len flags =
     [Out (reg k dev ADDRESS_INDEX) (ucast addr),
      Out (reg k dev TXD_MAXCNT_INDEX) (reg_addr_len k flags),
      Out (reg k dev TXD_PTR_INDEX) (reg_local k),
      Out (reg k dev RXD_PTR_INDEX) data,
      Out (reg k dev RXD_MAXCNT_INDEX) (ucast (ucast len :: 8 word)),
      Out (reg k dev SHORTS_INDEX)
        (TWIM_SHORTS_LASTTX_STARTRX_Msk k OR TWIM_SHORTS_LASTRX_STOP_Msk k),
      Out (reg k dev TASKS_STARTTX_INDEX) 1]"



text \<open>
  What the statements ask of the header constants: the index macros with the suffix
  \<^verbatim>\<open>_INDEX\<close> name different registers, the two interrupt masks of the success
  conditions are different bits, the shorts written for a register read do not include
  the short from the last transmitted byte to stop, and the static buffer is not at
  address 0.
\<close>

definition index_regs :: "twim_reg list" where
  "index_regs =
     [INTENSET_INDEX, INTENCLR_INDEX, EVENTS_STOPPED_INDEX, EVENTS_ERROR_INDEX,
      ERRORSRC_INDEX, TXD_MAXAMOUNT_INDEX, TXD_MAXCNT_INDEX, TXD_PTR_INDEX, RXD_PTR_INDEX,
      RXD_MAXCNT_INDEX, ADDRESS_INDEX, SHORTS_INDEX, TASKS_STARTRX_INDEX,
      TASKS_STARTTX_INDEX]"

definition wf_platform :: "platform \<Rightarrow> bool" where
  "wf_platform k \<longleftrightarrow>
     distinct (map (PIP_NRF_TWIM_TWIM1 k) index_regs)
     \<and> TWIM_INTEN_LASTTX_Msk k \<noteq> 0
     \<and> TWIM_INTEN_STOPPED_Msk k AND TWIM_INTEN_LASTTX_Msk k = 0
     \<and> (TWIM_SHORTS_LASTTX_STARTRX_Msk k OR TWIM_SHORTS_LASTRX_STOP_Msk k)
         AND TWIM_SHORTS_LASTTX_STOP_Msk k = 0
     \<and> tx_buf k \<noteq> 0"

section \<open>Properties\<close>

lemmas prims = then_do_def return_def assert_def Pip_out_def Pip_in_def mutex_lock_def
  mutex_unlock_def memcpy_def store8_def store16_def

lemmas run = i2c_write_bytes_def i2c_write_regs_def i2c_read_bytes_def i2c_read_regs_def
  direct_i2c_write_bytes_def finish_def finish_wait_def finish_block_def finish_settle_def
  finish_classify_def interrupt_def copied_def
  i2c_isr_handler_def in_ram_def I2C_NUMOF_def i2c_config_def reg_def bus_def
  dwm1001_def idle_def bytes_at_def htons_def

subsection \<open>What finish does to the state\<close>

lemma wf_dwm1001: "wf_platform dwm1001"
  by (simp add: wf_platform_def dwm1001_def index_regs_def)

lemma reg_eq_iff:
  assumes "wf_platform k" "r \<in> set index_regs" "r' \<in> set index_regs"
  shows "reg k dev r = reg k dev r' \<longleftrightarrow> r = r'"
proof -
  from assms(1) have "inj_on (PIP_NRF_TWIM_TWIM1 k) (set index_regs)"
    by (simp add: wf_platform_def distinct_map)
  with assms(2,3) show ?thesis
    by (auto simp: reg_def dest: inj_onD)
qed

lemma writes_to_append: "writes_to a (xs @ ys) = writes_to a xs @ writes_to a ys"
  by (induction a xs rule: writes_to.induct) simp_all

lemma new_events_append: "trace s' = trace s @ evs \<Longrightarrow> new_events s s' = evs"
  by (simp add: new_events_def)

lemma then_do_assoc: "then_do (then_do m f) g = then_do m (\<lambda>x. then_do (f x) g)"
  by (auto simp: then_do_def fun_eq_iff split: prod.splits result.splits)

lemma extends_refl: "extends P s s"
  by (simp add: extends_def)

lemma extends_trans: "extends P s s1 \<Longrightarrow> extends P s1 s2 \<Longrightarrow> extends P s s2"
  by (auto simp: extends_def)

lemma Pip_in_extends: "(\<And>v. P (In a v)) \<Longrightarrow> extends P s (snd (Pip_in a s))"
  by (auto simp: extends_def Pip_in_def split: list.splits)

lemma Pip_out_extends: "P (Out a v) \<Longrightarrow> extends P s (snd (Pip_out a v s))"
  by (auto simp: extends_def Pip_out_def)

lemma return_extends: "extends P s (snd (return x s))"
  by (simp add: return_def extends_refl)

lemma if_extends:
  assumes "c \<Longrightarrow> extends P s (snd (A s))" and "\<not> c \<Longrightarrow> extends P s (snd (B s))"
  shows "extends P s (snd ((if c then A else B) s))"
  using assms by simp

lemma then_do_extends:
  assumes "\<And>s. extends P s (snd (m s))"
    and "\<And>x s. extends P s (snd (f x s))"
  shows "extends P s (snd (then_do m f s))"
proof (cases "m s")
  case (Pair r s1)
  with assms(1) [of s] have 1: "extends P s s1" by simp
  show ?thesis
  proof (cases r)
    case (Val x)
    with Pair have "then_do m f s = f x s1" by (simp add: then_do_def)
    with assms(2) [of s1 x] 1 show ?thesis by (auto intro: extends_trans)
  next
    case (Halt h)
    with Pair 1 show ?thesis by (simp add: then_do_def)
  qed
qed

lemma poll_lasttx_extends: "extends (io_event k dev) s (snd (poll_lasttx k dev s))"
proof (induction k dev s rule: poll_lasttx.induct)
  case (1 k dev s)
  obtain r1 s1 where p1: "Pip_in (reg k dev TXD_MAXAMOUNT_INDEX) s = (r1, s1)"
    by (cases "Pip_in (reg k dev TXD_MAXAMOUNT_INDEX) s")
  obtain r2 s2 where p2: "Pip_in (reg k dev TXD_MAXCNT_INDEX) s1 = (r2, s2)"
    by (cases "Pip_in (reg k dev TXD_MAXCNT_INDEX) s1")
  obtain r3 s3 where p3: "Pip_in (reg k dev EVENTS_ERROR) s2 = (r3, s3)"
    by (cases "Pip_in (reg k dev EVENTS_ERROR) s2")
  have e1: "extends (io_event k dev) s s1"
    using Pip_in_extends [of "io_event k dev" "reg k dev TXD_MAXAMOUNT_INDEX" s] p1 by simp
  have e2: "extends (io_event k dev) s1 s2"
    using Pip_in_extends [of "io_event k dev" "reg k dev TXD_MAXCNT_INDEX" s1] p2 by simp
  have e3: "extends (io_event k dev) s2 s3"
    using Pip_in_extends [of "io_event k dev" "reg k dev EVENTS_ERROR" s2] p3 by simp
  note e12 = extends_trans [OF e1 e2]
  note e123 = extends_trans [OF e12 e3]
  show ?case
  proof (cases r1)
    case (Halt h)
    with p1 e1 show ?thesis by (subst poll_lasttx.simps) simp
  next
    case a: (Val amount)
    show ?thesis
    proof (cases r2)
      case (Halt h)
      with a p1 p2 e12 show ?thesis by (subst poll_lasttx.simps) simp
    next
      case m: (Val maxcnt)
      show ?thesis
      proof (cases "amount = maxcnt")
        case True
        with a m p1 p2 e12 show ?thesis by (subst poll_lasttx.simps) simp
      next
        case ne: False
        show ?thesis
        proof (cases r3)
          case (Halt h)
          with a m ne p1 p2 p3 e123 show ?thesis by (subst poll_lasttx.simps) simp
        next
          case e: (Val err)
          show ?thesis
          proof (cases "err = 0")
            case True
            from "1.IH" [OF p1 [symmetric] a p2 [symmetric] m ne p3 [symmetric] e True]
            have "extends (io_event k dev) s3 (snd (poll_lasttx k dev s3))" .
            with e123 have "extends (io_event k dev) s (snd (poll_lasttx k dev s3))"
              by (rule extends_trans)
            with a m ne e True p1 p2 p3 show ?thesis by (subst poll_lasttx.simps) simp
          next
            case False
            with a m ne e p1 p2 p3 e123 show ?thesis by (subst poll_lasttx.simps) simp
          qed
        qed
      qed
    qed
  qed
qed

lemma finish_classify_extends:
  "extends (io_event k dev) s (snd (finish_classify k dev s))"
  unfolding finish_classify_def
  by (intro then_do_extends if_extends Pip_in_extends Pip_out_extends return_extends) simp_all

lemma finish_classify_quiet:
  "extends (quiet_event k dev) s (snd (finish_classify k dev s))"
  unfolding finish_classify_def
  by (intro then_do_extends if_extends Pip_in_extends Pip_out_extends return_extends) simp_all

lemma finish_settle_extends:
  "extends (io_event k dev) s (snd (finish_settle k dev f s))"
  unfolding finish_settle_def
  by (intro then_do_extends if_extends Pip_in_extends Pip_out_extends return_extends
      poll_lasttx_extends) simp_all

text \<open>When the success condition is not LASTTX, \<^verbatim>\<open>finish\<close> does not enter the poll loop.\<close>

lemma finish_settle_quiet:
  assumes "f AND TWIM_INTEN_LASTTX_Msk k = 0"
  shows "extends (quiet_event k dev) s (snd (finish_settle k dev f s))"
  unfolding finish_settle_def
  by (intro then_do_extends if_extends Pip_in_extends Pip_out_extends return_extends)
    (simp_all add: assms)

lemma finish_block_eq:
  "finish_block k dev f s =
     (if irq s \<or> \<not> locked s (Busy dev)
      then (Val (), s\<lparr>locked := (locked s)(Busy dev := True),
                      trace := trace s @ wait_events k dev f s\<rparr>)
      else (Halt Blocked, s\<lparr>trace := trace s @ wait_events k dev f s\<rparr>))"
  by (simp add: finish_block_def wait_events_def interrupt_def i2c_isr_handler_def
      then_do_def Pip_out_def mutex_lock_def mutex_unlock_def)

text \<open>
  The trace of \<^verbatim>\<open>finish\<close>: the events of the wait, then register accesses only. It
  leaves the memory and the lock of the transaction buffer alone.
\<close>

lemma finish_frame_gen:
  assumes "\<And>s. extends P s (snd (finish_settle k dev f s))"
    and "\<And>s. extends P s (snd (finish_classify k dev s))"
  shows "\<exists>post. list_all P post
     \<and> trace (snd (finish k dev f s)) = trace s @ wait_events k dev f s @ post
     \<and> mem (snd (finish k dev f s)) = mem s
     \<and> locked (snd (finish k dev f s)) Buffer_lock = locked s Buffer_lock"
proof (cases "irq s \<or> \<not> locked s (Busy dev)")
  case False
  then have "finish k dev f s = (Halt Blocked, s\<lparr>trace := trace s @ wait_events k dev f s\<rparr>)"
    by (simp add: finish_def finish_wait_def then_do_assoc then_do_def [of "finish_block k dev f"]
        finish_block_eq)
  then show ?thesis by simp
next
  case True
  define s0 where "s0 = s\<lparr>locked := (locked s)(Busy dev := True),
                           trace := trace s @ wait_events k dev f s\<rparr>"
  define s' where "s' = snd (then_do (finish_settle k dev f) (\<lambda>_. finish_classify k dev) s0)"
  from True have eq: "finish k dev f s
      = then_do (finish_settle k dev f) (\<lambda>_. finish_classify k dev) s0"
    by (simp add: finish_def finish_wait_def then_do_assoc then_do_def [of "finish_block k dev f"]
        finish_block_eq s0_def)
  have "extends P s0 s'"
    unfolding s'_def by (intro then_do_extends assms)
  then obtain post where post: "list_all P post" "trace s' = trace s0 @ post"
    "mem s' = mem s0" "locked s' = locked s0"
    by (auto simp: extends_def)
  have fs: "snd (finish k dev f s) = s'"
    using eq by (simp add: s'_def)
  have "trace s0 = trace s @ wait_events k dev f s" "mem s0 = mem s"
    "locked s0 Buffer_lock = locked s Buffer_lock"
    by (simp_all add: s0_def)
  with post show ?thesis
    unfolding fs by auto
qed

lemma finish_frame:
  "\<exists>post. list_all (io_event k dev) post
     \<and> trace (snd (finish k dev f s)) = trace s @ wait_events k dev f s @ post
     \<and> mem (snd (finish k dev f s)) = mem s
     \<and> locked (snd (finish k dev f s)) Buffer_lock = locked s Buffer_lock"
  by (rule finish_frame_gen) (rule finish_settle_extends finish_classify_extends)+

lemma finish_frame_quiet:
  assumes "f AND TWIM_INTEN_LASTTX_Msk k = 0"
  shows "\<exists>post. list_all (quiet_event k dev) post
     \<and> trace (snd (finish k dev f s)) = trace s @ wait_events k dev f s @ post
     \<and> mem (snd (finish k dev f s)) = mem s
     \<and> locked (snd (finish k dev f s)) Buffer_lock = locked s Buffer_lock"
  by (rule finish_frame_gen) (rule finish_settle_quiet [OF assms] finish_classify_quiet)+

lemma quiet_is_io: "quiet_event k dev ev \<Longrightarrow> io_event k dev ev"
  by (cases ev) auto

subsection \<open>Stepping through the code\<close>

lemma and_or_eq_0_iff:
  fixes f :: "'a::len word"
  shows "f AND (a OR b) = 0 \<longleftrightarrow> f AND a = 0 \<and> f AND b = 0"
  by (simp add: bit.conj_disj_distrib or_eq_0_iff)

lemma wait_events_trace [simp]:
  "wait_events k dev f (s\<lparr>trace := t\<rparr>) = wait_events k dev f s"
  by (simp add: wait_events_def)

lemma then_do_return: "then_do (return x) f = f x"
  by (simp add: then_do_def return_def fun_eq_iff)

lemma then_do_assert:
  "then_do (assert b) f s = (if b then f () s else (Halt Assert_failed, s))"
  by (simp add: then_do_def assert_def)

lemma then_do_Pip_out:
  "then_do (Pip_out a v) f s = f () (s\<lparr>trace := trace s @ [Out a v]\<rparr>)"
  by (simp add: then_do_def Pip_out_def)

lemma then_do_mutex_lock:
  "then_do (mutex_lock m) f s =
     (if locked s m then (Halt Blocked, s)
      else f () (s\<lparr>locked := (locked s)(m := True), trace := trace s @ [Lock m]\<rparr>))"
  by (simp add: then_do_def mutex_lock_def)

lemma then_do_mutex_unlock:
  "then_do (mutex_unlock m) f s =
     f () (s\<lparr>locked := (locked s)(m := False), trace := trace s @ [Unlock m]\<rparr>)"
  by (simp add: then_do_def mutex_unlock_def)

lemma then_do_memcpy:
  "then_do (memcpy dst src n) f s = f () (s\<lparr>mem := copied dst src n (mem s)\<rparr>)"
  by (simp add: then_do_def memcpy_def)

lemma then_do_store8:
  "then_do (store8 a v) f s = f () (s\<lparr>mem := (mem s)(a := v)\<rparr>)"
  by (simp add: then_do_def store8_def)

lemma then_do_store16:
  "then_do (store16 a v) f s =
     f () (s\<lparr>mem := (mem s)(a := ucast v, a + 1 := ucast (drop_bit 8 v))\<rparr>)"
  by (simp add: then_do_def store16_def)

lemma then_do_if:
  "then_do (if c then m else m') f = (if c then then_do m f else then_do m' f)"
  by simp

lemma then_do_Val: "m s = (Val x, s') \<Longrightarrow> then_do m f s = f x s'"
  by (simp add: then_do_def)

lemma then_do_Halt: "m s = (Halt h, s') \<Longrightarrow> then_do m f s = (Halt h, s')"
  by (simp add: then_do_def)

lemmas steps = then_do_assoc then_do_return then_do_assert then_do_Pip_out then_do_mutex_lock
  then_do_mutex_unlock then_do_memcpy then_do_store8 then_do_store16 then_do_if

lemma direct_rejected:
  assumes "dev < I2C_NUMOF k" "data \<noteq> 0" "0 < len" "len < 256"
    and "flags AND (I2C_NOSTART k OR I2C_ADDR10 k) \<noteq> 0"
  shows "direct_i2c_write_bytes k dev addr data len flags s = (Val (- EOPNOTSUPP k), s)"
  using assms by (simp add: direct_i2c_write_bytes_def steps return_def)

lemma direct_accepted:
  assumes "dev < I2C_NUMOF k" "data \<noteq> 0" "0 < len" "len < 256"
    and "flags AND (I2C_NOSTART k OR I2C_ADDR10 k) = 0"
  shows "direct_i2c_write_bytes k dev addr data len flags s =
           finish k dev (write_success_flag k flags)
             (s\<lparr>trace := trace s @ write_setup k dev addr data len flags\<rparr>)"
  using assms
  by (simp add: direct_i2c_write_bytes_def write_setup_def write_success_flag_def steps)

lemma direct_frame:
  assumes "dev < I2C_NUMOF k" "data \<noteq> 0" "0 < len" "len < 256"
    and "flags AND (I2C_NOSTART k OR I2C_ADDR10 k) = 0"
  shows "\<exists>post. list_all (io_event k dev) post
     \<and> trace (snd (direct_i2c_write_bytes k dev addr data len flags s)) =
         trace s @ write_setup k dev addr data len flags
           @ wait_events k dev (write_success_flag k flags) s @ post
     \<and> mem (snd (direct_i2c_write_bytes k dev addr data len flags s)) = mem s
     \<and> locked (snd (direct_i2c_write_bytes k dev addr data len flags s)) Buffer_lock
         = locked s Buffer_lock"
  using finish_frame [of k dev "write_success_flag k flags"
      "s\<lparr>trace := trace s @ write_setup k dev addr data len flags\<rparr>"]
  by (simp add: direct_accepted [OF assms])

lemma word_len_bounds:
  fixes len :: "32 word"
  assumes "0 < len" "len < 253"
  shows "0 < 1 + len" "1 + len < 256" "0 < 2 + len" "2 + len < 256" "len < 256"
proof -
  from assms have u: "0 < unat len" "unat len < 253"
    by (simp_all add: word_less_nat_alt)
  then have "unat (1 + len) = 1 + unat len" "unat (2 + len) = 2 + unat len"
    by (simp_all add: unat_word_ariths)
  with u show "0 < 1 + len" "1 + len < 256" "0 < 2 + len" "2 + len < 256" "len < 256"
    by (simp_all add: word_less_nat_alt)
qed

lemma wait_events_cong:
  "irq s' = irq s \<Longrightarrow> locked s' (Busy dev) = locked s (Busy dev)
   \<Longrightarrow> wait_events k dev f s' = wait_events k dev f s"
  by (simp add: wait_events_def)

text \<open>What the unlock-and-return wrapper of the staged paths does with a result.\<close>

lemma unlock_after:
  "then_do m (\<lambda>ret. then_do (mutex_unlock Buffer_lock) (\<lambda>_. return ret)) s =
     (case m s of
        (Val x, s') \<Rightarrow> (Val x, s'\<lparr>locked := (locked s')(Buffer_lock := False),
                                   trace := trace s' @ [Unlock Buffer_lock]\<rparr>)
      | (Halt h, s') \<Rightarrow> (Halt h, s'))"
  by (simp add: then_do_def mutex_unlock_def return_def split: prod.splits result.splits)

lemma staged_frame:
  fixes m :: "32 word \<Rightarrow> 8 word" and addr :: "16 word"
  assumes "dev < I2C_NUMOF k" "tx_buf k \<noteq> 0" "0 < n" "n < 256"
    and "flags AND (I2C_NOSTART k OR I2C_ADDR10 k) = 0"
    and "\<not> locked s Buffer_lock"
  defines "s1 \<equiv> s\<lparr>locked := (locked s)(Buffer_lock := True),
                    trace := trace s @ [Lock Buffer_lock], mem := m\<rparr>"
  defines "res \<equiv> then_do (direct_i2c_write_bytes k dev addr (tx_buf k) n flags)
                   (\<lambda>ret. then_do (mutex_unlock Buffer_lock) (\<lambda>_. return ret)) s1"
  shows "\<exists>post. list_all (io_event k dev) post
     \<and> new_events s (snd res) =
         Lock Buffer_lock # write_setup k dev addr (tx_buf k) n flags
           @ wait_events k dev (write_success_flag k flags) s @ post
           @ (case fst res of Val x \<Rightarrow> [Unlock Buffer_lock] | Halt h \<Rightarrow> [])
     \<and> mem (snd res) = m
     \<and> fst res = fst (direct_i2c_write_bytes k dev addr (tx_buf k) n flags s1)"
proof -
  obtain r s2 where d: "direct_i2c_write_bytes k dev addr (tx_buf k) n flags s1 = (r, s2)"
    by (cases "direct_i2c_write_bytes k dev addr (tx_buf k) n flags s1")
  from direct_frame [OF assms(1-5), of addr s1] d
  obtain post where post: "list_all (io_event k dev) post"
    "trace s2 = trace s1 @ write_setup k dev addr (tx_buf k) n flags
           @ wait_events k dev (write_success_flag k flags) s1 @ post"
    "mem s2 = mem s1"
    by auto
  have w: "wait_events k dev (write_success_flag k flags) s1
           = wait_events k dev (write_success_flag k flags) s"
    by (rule wait_events_cong) (simp_all add: s1_def)
  have t: "trace s2 = trace s @ Lock Buffer_lock # write_setup k dev addr (tx_buf k) n flags
           @ wait_events k dev (write_success_flag k flags) s @ post"
    using post(2) w by (simp add: s1_def)
  have m: "mem s2 = m" using post(3) by (simp add: s1_def)
  show ?thesis
  proof (cases r)
    case (Val x)
    with d have "res = (Val x, s2\<lparr>locked := (locked s2)(Buffer_lock := False),
                                   trace := trace s2 @ [Unlock Buffer_lock]\<rparr>)"
      by (simp add: res_def unlock_after)
    with post(1) t m d Val show ?thesis
      by (auto simp: new_events_def)
  next
    case (Halt h)
    with d have "res = (Halt h, s2)"
      by (simp add: res_def unlock_after)
    with post(1) t m d Halt show ?thesis
      by (auto simp: new_events_def)
  qed
qed

subsection \<open>Bytes, and the values written to a register\<close>

lemma ucast_low_byte: "(ucast (rg AND 0xFF :: 16 word) :: 8 word) = ucast rg"
proof -
  have m: "(0xFF :: 16 word) = mask 8"
    by (simp add: mask_eq_exp_minus_1)
  show ?thesis
    unfolding m by (rule bit_word_eqI) (auto simp: bit_simps)
qed

lemma ucast_len8:
  fixes n :: "32 word"
  assumes "n < 256"
  shows "(ucast (ucast n :: 8 word) :: 32 word) = n"
proof -
  from assms have "unat n < 256" by (simp add: word_less_nat_alt)
  then show ?thesis
    by (simp add: word_eq_iff_unsigned [where ?'a = nat] unsigned_ucast_eq
        unsigned_take_bit_eq take_bit_nat_eq_self)
qed

lemma copied_outside: "\<not> a - dst < n \<Longrightarrow> copied dst src n m a = m a"
  by (simp add: copied_def)

lemma copied_inside: "i < n \<Longrightarrow> copied dst src n m (dst + i) = m (src + i)"
  by (simp add: copied_def)

lemma selector_slots_kept:
  fixes n a :: "32 word"
  assumes "n < 253"
  shows "\<not> a - (a + 1) < n" "\<not> a - (a + 2) < n" "\<not> a + 1 - (a + 2) < n"
proof -
  have "a - (a + 1) = 0xFFFFFFFF" "a - (a + 2) = 0xFFFFFFFE" "a + 1 - (a + 2) = 0xFFFFFFFF"
    by simp_all
  moreover from assms have "unat n < 253" by (simp add: word_less_nat_alt)
  ultimately show "\<not> a - (a + 1) < n" "\<not> a - (a + 2) < n" "\<not> a + 1 - (a + 2) < n"
    by (simp_all add: word_less_nat_alt unsigned_minus_1_eq_mask mask_eq_exp_minus_1)
qed

lemma writes_to_io:
  assumes "wf_platform k" "list_all (io_event k dev) post"
    and "r \<in> {ADDRESS_INDEX, TXD_PTR_INDEX, TXD_MAXCNT_INDEX, SHORTS_INDEX, TASKS_STARTTX_INDEX,
               TASKS_STARTRX_INDEX, RXD_PTR_INDEX, RXD_MAXCNT_INDEX, INTENSET_INDEX}"
  shows "writes_to (reg k dev r) post = []"
  using assms(2)
proof (induction post)
  case Nil
  show ?case by simp
next
  case (Cons ev post)
  then have ih: "writes_to (reg k dev r) post = []" by simp
  show ?case
  proof (cases ev)
    case (Out a v)
    with Cons.prems obtain r' where r': "a = reg k dev r'"
      "r' \<in> {EVENTS_STOPPED_INDEX, EVENTS_ERROR_INDEX, ERRORSRC_INDEX}"
      by auto
    with assms(3) have "r \<noteq> r'" "r \<in> set index_regs" "r' \<in> set index_regs"
      by (auto simp: index_regs_def)
    with reg_eq_iff [OF assms(1), of r r' dev] r' have "reg k dev r \<noteq> a" by simp
    with Out ih show ?thesis by simp
  qed (use ih in simp_all)
qed

lemma writes_to_wait:
  assumes "wf_platform k"
    and "r \<in> {ADDRESS_INDEX, TXD_PTR_INDEX, TXD_MAXCNT_INDEX, SHORTS_INDEX, TASKS_STARTTX_INDEX,
               TASKS_STARTRX_INDEX, RXD_PTR_INDEX, RXD_MAXCNT_INDEX}"
  shows "writes_to (reg k dev r) (wait_events k dev f s) = []"
proof -
  from assms(2) have "r \<noteq> INTENSET_INDEX" "r \<noteq> INTENCLR_INDEX" "r \<in> set index_regs"
    "INTENSET_INDEX \<in> set index_regs" "INTENCLR_INDEX \<in> set index_regs"
    by (auto simp: index_regs_def)
  with reg_eq_iff [OF assms(1), of r INTENSET_INDEX dev]
    reg_eq_iff [OF assms(1), of r INTENCLR_INDEX dev]
  show ?thesis by (simp add: wait_events_def)
qed

lemma writes_to_write_setup:
  assumes "wf_platform k"
  shows "writes_to (reg k dev ADDRESS_INDEX) (write_setup k dev addr p n flags) = [ucast addr]"
    and "writes_to (reg k dev TXD_PTR_INDEX) (write_setup k dev addr p n flags) = [p]"
    and "writes_to (reg k dev TXD_MAXCNT_INDEX) (write_setup k dev addr p n flags)
          = [ucast (ucast n :: 8 word)]"
    and "writes_to (reg k dev SHORTS_INDEX) (write_setup k dev addr p n flags)
          = [if flags AND I2C_NOSTOP k = 0 then TWIM_SHORTS_LASTTX_STOP_Msk k else 0]"
    and "writes_to (reg k dev TASKS_STARTTX_INDEX) (write_setup k dev addr p n flags) = [1]"
  by (simp_all add: write_setup_def reg_eq_iff [OF assms] index_regs_def)

subsection \<open>The register-prefixed write\<close>

lemma i2c_write_regs_reg16:
  assumes "dev < I2C_NUMOF k" "data \<noteq> 0" "0 < len" "len < 253"
    and "flags AND (I2C_NOSTART k OR I2C_ADDR10 k) = 0"
    and "\<not> locked s Buffer_lock"
    and "flags AND I2C_REG16 k \<noteq> 0"
  shows "i2c_write_regs k dev addr rg data len flags s =
     then_do (direct_i2c_write_bytes k dev addr (tx_buf k) (2 + len) flags)
       (\<lambda>ret. then_do (mutex_unlock Buffer_lock) (\<lambda>_. return ret))
       (s\<lparr>locked := (locked s)(Buffer_lock := True),
          trace := trace s @ [Lock Buffer_lock],
          mem := copied (tx_buf k + 2) data len
                   ((mem s)(tx_buf k := ucast (drop_bit 8 rg),
                            tx_buf k + 1 := ucast (rg AND 0xFF)))\<rparr>)"
  using assms by (simp add: i2c_write_regs_def steps)

lemma i2c_write_regs_reg8:
  assumes "dev < I2C_NUMOF k" "data \<noteq> 0" "0 < len" "len < 253"
    and "flags AND (I2C_NOSTART k OR I2C_ADDR10 k) = 0"
    and "\<not> locked s Buffer_lock"
    and "flags AND I2C_REG16 k = 0"
  shows "i2c_write_regs k dev addr rg data len flags s =
     then_do (direct_i2c_write_bytes k dev addr (tx_buf k) (1 + len) flags)
       (\<lambda>ret. then_do (mutex_unlock Buffer_lock) (\<lambda>_. return ret))
       (s\<lparr>locked := (locked s)(Buffer_lock := True),
          trace := trace s @ [Lock Buffer_lock],
          mem := copied (tx_buf k + 1) data len ((mem s)(tx_buf k := ucast rg))\<rparr>)"
  using assms by (simp add: i2c_write_regs_def steps)

text \<open>The shape of every accepted register-prefixed write.\<close>

lemma i2c_write_regs_frame:
  assumes "dev < I2C_NUMOF k" "data \<noteq> 0" "0 < len" "len < 253"
    and "flags AND (I2C_NOSTART k OR I2C_ADDR10 k) = 0"
    and "\<not> locked s Buffer_lock" and "tx_buf k \<noteq> 0"
  shows "\<exists>post. list_all (io_event k dev) post
     \<and> new_events s (snd (i2c_write_regs k dev addr rg data len flags s)) =
         Lock Buffer_lock
         # write_setup k dev addr (tx_buf k) (reg_addr_len k flags + len) flags
         @ wait_events k dev (write_success_flag k flags) s @ post
         @ (case fst (i2c_write_regs k dev addr rg data len flags s) of
              Val x \<Rightarrow> [Unlock Buffer_lock] | Halt h \<Rightarrow> [])
     \<and> mem (snd (i2c_write_regs k dev addr rg data len flags s)) =
         (if flags AND I2C_REG16 k \<noteq> 0
          then copied (tx_buf k + 2) data len
                 ((mem s)(tx_buf k := ucast (drop_bit 8 rg),
                          tx_buf k + 1 := ucast (rg AND 0xFF)))
          else copied (tx_buf k + 1) data len ((mem s)(tx_buf k := ucast rg)))"
proof (cases "flags AND I2C_REG16 k = 0")
  case True
  note b = word_len_bounds [OF assms(3,4)]
  from staged_frame [OF assms(1) assms(7) b(1,2) assms(5,6),
      where m = "copied (tx_buf k + 1) data len ((mem s)(tx_buf k := ucast rg))"
        and addr = addr]
  show ?thesis
    by (simp add: i2c_write_regs_reg8 [OF assms(1-6) True] reg_addr_len_def True) blast
next
  case False
  note b = word_len_bounds [OF assms(3,4)]
  from staged_frame [OF assms(1) assms(7) b(3,4) assms(5,6),
      where m = "copied (tx_buf k + 2) data len
                 ((mem s)(tx_buf k := ucast (drop_bit 8 rg),
                          tx_buf k + 1 := ucast (rg AND 0xFF)))"
        and addr = addr]
  show ?thesis
    by (simp add: i2c_write_regs_reg16 [OF assms(1-6) False] reg_addr_len_def False) blast
qed

subsection \<open>The register-prefixed read and the staged plain write\<close>

lemma htons_bytes:
  "(ucast (htons rg) :: 8 word) = ucast (drop_bit 8 rg)"
  "(ucast (drop_bit 8 (htons rg)) :: 8 word) = ucast rg"
  unfolding htons_def
  by (rule bit_word_eqI; auto simp: bit_simps)+

lemma i2c_read_regs_accepted:
  assumes "dev < I2C_NUMOF k" "data \<noteq> 0" "0 < len" "len < 256"
    and "flags AND (I2C_NOSTART k OR I2C_ADDR10 k OR I2C_NOSTOP k) = 0"
  shows "i2c_read_regs k dev addr rg data len flags s =
     finish k dev (TWIM_INTEN_STOPPED_Msk k)
       (s\<lparr>mem := (if flags AND I2C_REG16 k \<noteq> 0
                  then (mem s)(reg_local k := ucast (drop_bit 8 rg),
                               reg_local k + 1 := ucast rg)
                  else (mem s)(reg_local k := ucast rg,
                               reg_local k + 1 := ucast (drop_bit 8 rg))),
          trace := trace s @ read_regs_setup k dev addr data len flags\<rparr>)"
  using assms
  by (simp add: i2c_read_regs_def read_regs_setup_def reg_addr_len_def steps htons_bytes)

lemma i2c_read_regs_frame:
  assumes "wf_platform k" "dev < I2C_NUMOF k" "data \<noteq> 0" "0 < len" "len < 256"
    and "flags AND (I2C_NOSTART k OR I2C_ADDR10 k OR I2C_NOSTOP k) = 0"
  shows "\<exists>post. list_all (quiet_event k dev) post
     \<and> new_events s (snd (i2c_read_regs k dev addr rg data len flags s)) =
         read_regs_setup k dev addr data len flags
         @ wait_events k dev (TWIM_INTEN_STOPPED_Msk k) s @ post
     \<and> mem (snd (i2c_read_regs k dev addr rg data len flags s)) =
         (if flags AND I2C_REG16 k \<noteq> 0
          then (mem s)(reg_local k := ucast (drop_bit 8 rg), reg_local k + 1 := ucast rg)
          else (mem s)(reg_local k := ucast rg, reg_local k + 1 := ucast (drop_bit 8 rg)))"
proof -
  from assms(1) have q: "TWIM_INTEN_STOPPED_Msk k AND TWIM_INTEN_LASTTX_Msk k = 0"
    by (simp add: wf_platform_def)
  define s0 where "s0 = s\<lparr>mem := (if flags AND I2C_REG16 k \<noteq> 0
                  then (mem s)(reg_local k := ucast (drop_bit 8 rg),
                               reg_local k + 1 := ucast rg)
                  else (mem s)(reg_local k := ucast rg,
                               reg_local k + 1 := ucast (drop_bit 8 rg))),
          trace := trace s @ read_regs_setup k dev addr data len flags\<rparr>"
  have w: "wait_events k dev (TWIM_INTEN_STOPPED_Msk k) s0
         = wait_events k dev (TWIM_INTEN_STOPPED_Msk k) s"
    by (rule wait_events_cong) (simp_all add: s0_def)
  from finish_frame_quiet [OF q, of dev s0] w
  show ?thesis
    unfolding i2c_read_regs_accepted [OF assms(2-6)] s0_def [symmetric]
    by (auto simp: new_events_def s0_def)
qed

lemma i2c_write_bytes_staged:
  assumes "\<not> in_ram k data" "0 < len" "len < 256" "\<not> locked s Buffer_lock"
  shows "i2c_write_bytes k dev addr data len flags s =
     then_do (direct_i2c_write_bytes k dev addr (tx_buf k) len flags)
       (\<lambda>ret. then_do (mutex_unlock Buffer_lock) (\<lambda>_. return ret))
       (s\<lparr>locked := (locked s)(Buffer_lock := True),
          trace := trace s @ [Lock Buffer_lock],
          mem := copied (tx_buf k) data len (mem s)\<rparr>)"
  using assms by (simp add: i2c_write_bytes_def steps)

lemma quiet_list_io: "list_all (quiet_event k dev) evs \<Longrightarrow> list_all (io_event k dev) evs"
  by (induction evs) (auto intro: quiet_is_io)

lemma io_no_lock: "list_all (io_event k dev) evs \<Longrightarrow> filter (\<lambda>e. e = Lock m) evs = []"
proof (induction evs)
  case Nil
  show ?case by simp
next
  case (Cons ev evs)
  then show ?case by (cases ev) auto
qed

lemma copied_payload:
  fixes i :: "32 word"
  assumes "i < len" and "\<not> a - data < len"
  shows "data + i \<noteq> a"
proof
  assume e: "data + i = a"
  have "data + i - data = i" by simp
  with e have "a - data = i" by simp
  with assms show False by simp
qed

lemma copied_selector:
  fixes n a :: "32 word"
  assumes "n < 253"
  shows "copied (a + 1) src n m a = m a" "copied (a + 2) src n m a = m a"
    "copied (a + 2) src n m (a + 1) = m (a + 1)"
  by (rule copied_outside, rule selector_slots_kept [OF assms])+

lemma dwm1001_fields:
  "I2C_NOSTART dwm1001 = 0x08" "I2C_ADDR10 dwm1001 = 0x01" "I2C_NOSTOP dwm1001 = 0x04"
  "I2C_REG16 dwm1001 = 0x02" "EOPNOTSUPP dwm1001 = 95" "ENXIO dwm1001 = 6" "EIO dwm1001 = 5"
  "tx_buf dwm1001 = 0x20000400" "reg_local dwm1001 = 0x2000FF00"
  "CPU_RAM_BASE dwm1001 = 0x20000000" "CPU_RAM_SIZE dwm1001 = 0x10000"
  by (simp_all add: dwm1001_def)

lemma contract_dwm1001: "(0 :: nat) < I2C_NUMOF dwm1001"
  by (simp add: I2C_NUMOF_def i2c_config_def)

lemma writes_to_read_regs_setup:
  assumes "wf_platform k"
  shows "writes_to (reg k dev ADDRESS_INDEX) (read_regs_setup k dev addr p n flags) = [ucast addr]"
    and "writes_to (reg k dev TXD_PTR_INDEX) (read_regs_setup k dev addr p n flags)
          = [reg_local k]"
    and "writes_to (reg k dev TXD_MAXCNT_INDEX) (read_regs_setup k dev addr p n flags)
          = [reg_addr_len k flags]"
    and "writes_to (reg k dev RXD_PTR_INDEX) (read_regs_setup k dev addr p n flags) = [p]"
    and "writes_to (reg k dev RXD_MAXCNT_INDEX) (read_regs_setup k dev addr p n flags)
          = [ucast (ucast n :: 8 word)]"
    and "writes_to (reg k dev SHORTS_INDEX) (read_regs_setup k dev addr p n flags)
          = [TWIM_SHORTS_LASTTX_STARTRX_Msk k OR TWIM_SHORTS_LASTRX_STOP_Msk k]"
    and "writes_to (reg k dev TASKS_STARTTX_INDEX) (read_regs_setup k dev addr p n flags) = [1]"
    and "writes_to (reg k dev TASKS_STARTRX_INDEX) (read_regs_setup k dev addr p n flags) = []"
  by (simp_all add: read_regs_setup_def reg_eq_iff [OF assms] index_regs_def)

lemma locks_of_wait:
  "length (filter (\<lambda>e. e = Lock (Busy dev)) (wait_events k dev f s)) \<le> 1"
  by (simp add: wait_events_def)

lemma i2c_write_bytes_frame:
  assumes "dev < I2C_NUMOF k" "data \<noteq> 0" "0 < len" "len < 256"
    and "flags AND (I2C_NOSTART k OR I2C_ADDR10 k) = 0"
    and "\<not> locked s Buffer_lock" and "tx_buf k \<noteq> 0"
  shows "\<exists>pre post. list_all (io_event k dev) post
     \<and> new_events s (snd (i2c_write_bytes k dev addr data len flags s)) =
         pre @ write_setup k dev addr (if in_ram k data then data else tx_buf k) len flags
         @ wait_events k dev (write_success_flag k flags) s @ post
         @ (case fst (i2c_write_bytes k dev addr data len flags s) of
              Val x \<Rightarrow> if in_ram k data then [] else [Unlock Buffer_lock] | Halt h \<Rightarrow> [])
     \<and> pre = (if in_ram k data then [] else [Lock Buffer_lock])
     \<and> mem (snd (i2c_write_bytes k dev addr data len flags s)) =
         (if in_ram k data then mem s else copied (tx_buf k) data len (mem s))"
proof (cases "in_ram k data")
  case True
  then have eq: "i2c_write_bytes k dev addr data len flags s
      = direct_i2c_write_bytes k dev addr data len flags s"
    by (simp add: i2c_write_bytes_def)
  from direct_frame [OF assms(1-5), of addr s] True show ?thesis
    unfolding eq by (cases "fst (direct_i2c_write_bytes k dev addr data len flags s)")
      (auto simp: new_events_def)
next
  case False
  from staged_frame [OF assms(1) assms(7) assms(3-6),
      where m = "copied (tx_buf k) data len (mem s)" and addr = addr]
  show ?thesis
    by (simp add: i2c_write_bytes_staged [OF False assms(3,4,6)] False) blast
qed

subsection \<open>The poll loop\<close>










subsection \<open>Violations of the caller contract\<close>

text \<open>
  Where an entry assertion covers the violation, the call fails the assertion and
  leaves the state as it was. A plain write from outside RAM asserts the length first
  and leaves the bus identifier to \<^verbatim>\<open>direct_i2c_write_bytes\<close>, after the staging.
\<close>

lemma contract_violations_fail_assertion:
  assumes "\<not> (dev < I2C_NUMOF k \<and> data \<noteq> 0 \<and> 0 < len \<and> len < 256)"
  shows "i2c_read_bytes k dev addr data len flags s = (Halt Assert_failed, s)"
    and "i2c_read_regs k dev addr rg data len flags s = (Halt Assert_failed, s)"
    and "direct_i2c_write_bytes k dev addr data len flags s = (Halt Assert_failed, s)"
    and "in_ram k data \<Longrightarrow> i2c_write_bytes k dev addr data len flags s = (Halt Assert_failed, s)"
    and "\<not> (0 < len \<and> len < 256)
         \<Longrightarrow> i2c_write_bytes k dev addr data len flags s = (Halt Assert_failed, s)"
  using assms
  by (auto simp: i2c_read_bytes_def i2c_read_regs_def direct_i2c_write_bytes_def
      i2c_write_bytes_def steps)

lemma write_regs_contract_violation:
  assumes "\<not> (dev < I2C_NUMOF k \<and> data \<noteq> 0 \<and> 0 < len \<and> len < 253)"
  shows "i2c_write_regs k dev addr rg data len flags s = (Halt Assert_failed, s)"
  using assms by (auto simp: i2c_write_regs_def steps)

lemma staged_write_bad_bus_fails_assertion:
  assumes "\<not> in_ram k data" "0 < len" "len < 256" "\<not> locked s Buffer_lock"
    and "\<not> dev < I2C_NUMOF k"
  shows "fst (i2c_write_bytes k dev addr data len flags s) = Halt Assert_failed"
  using assms
  by (simp add: i2c_write_bytes_staged then_do_def [of "direct_i2c_write_bytes k dev addr p len flags" for p]
      direct_i2c_write_bytes_def steps)

subsection \<open>Error classification\<close>

text \<open>
  C2. Once the wait of \<^verbatim>\<open>finish\<close> is over (state \<open>s1\<close>, line 142): if the error event
  reads non-zero, 0 is written to it; then, if the error source reads with the
  address-NACK bit, the address-NACK mask is written to the error source (the write
  that clears the bit) and \<open>-ENXIO\<close> is returned, whatever the data-NACK bit says;
  otherwise the error source is read again, and if it has the data-NACK bit, the
  data-NACK mask is written to it and \<open>-EIO\<close> is returned.
\<close>

theorem finish_classifies_nack:
  assumes "finish_wait k dev flag s = (Val (), s1)"
  shows "(reads s1 = e # v # rest \<and> e \<noteq> 0 \<and> v AND TWIM_ERRORSRC_ANACK_Msk k \<noteq> 0 \<longrightarrow>
            finish k dev flag s =
              (Val (- ENXIO k),
               s1\<lparr>trace := trace s1 @
                      [In (reg k dev EVENTS_ERROR_INDEX) e, Out (reg k dev EVENTS_ERROR_INDEX) 0,
                       In (reg k dev ERRORSRC_INDEX) v,
                       Out (reg k dev ERRORSRC_INDEX) (TWIM_ERRORSRC_ANACK_Msk k)],
                    reads := rest\<rparr>))
       \<and> (reads s1 = e' # v' # w' # rest' \<and> e' \<noteq> 0 \<and> v' AND TWIM_ERRORSRC_ANACK_Msk k = 0
            \<and> w' AND TWIM_ERRORSRC_DNACK_Msk k \<noteq> 0 \<longrightarrow>
            finish k dev flag s =
              (Val (- EIO k),
               s1\<lparr>trace := trace s1 @
                      [In (reg k dev EVENTS_ERROR_INDEX) e', Out (reg k dev EVENTS_ERROR_INDEX) 0,
                       In (reg k dev ERRORSRC_INDEX) v', In (reg k dev ERRORSRC_INDEX) w',
                       Out (reg k dev ERRORSRC_INDEX) (TWIM_ERRORSRC_DNACK_Msk k)],
                    reads := rest'\<rparr>))"
  using assms by (simp add: finish_def finish_classify_def prims)

text \<open>
  On the concrete platform: after the stop event, an error with error source 6 (both
  NACK bits) gives \<open>-ENXIO\<close>, and one with error source 4 (data NACK only) gives \<open>-EIO\<close>.
\<close>

theorem finish_classifies_nack_witness:
  "fst (finish_wait dwm1001 0 2 (idle (bytes_at 0 []) [1, 1, 6])) = Val ()
   \<and> reads (snd (finish_wait dwm1001 0 2 (idle (bytes_at 0 []) [1, 1, 6]))) = [1, 6]
   \<and> fst (finish dwm1001 0 2 (idle (bytes_at 0 []) [1, 1, 6])) = Val (- 6)
   \<and> fst (finish_wait dwm1001 0 2 (idle (bytes_at 0 []) [1, 1, 4, 4])) = Val ()
   \<and> reads (snd (finish_wait dwm1001 0 2 (idle (bytes_at 0 []) [1, 1, 4, 4]))) = [1, 4, 4]
   \<and> fst (finish dwm1001 0 2 (idle (bytes_at 0 []) [1, 1, 4, 4])) = Val (- 5)"
proof -
  define sa where "sa = snd (finish_wait dwm1001 0 2 (idle (bytes_at 0 []) [1, 1, 6]))"
  define sb where "sb = snd (finish_wait dwm1001 0 2 (idle (bytes_at 0 []) [1, 1, 4, 4]))"
  have a: "finish_wait dwm1001 0 2 (idle (bytes_at 0 []) [1, 1, 6]) = (Val (), sa)"
    and ra: "reads sa = [1, 6]"
    by (simp_all add: sa_def run prims)
  have b: "finish_wait dwm1001 0 2 (idle (bytes_at 0 []) [1, 1, 4, 4]) = (Val (), sb)"
    and rb: "reads sb = [1, 4, 4]"
    by (simp_all add: sb_def run prims)
  from finish_classifies_nack [OF a, of 1 6 "[]"] ra
    finish_classifies_nack [OF b, of _ _ _ 1 4 4 "[]"] rb a b
  show ?thesis by (simp add: dwm1001_def)
qed

text \<open>
  C10. Once the wait is over: if the error event reads non-zero and the two reads of
  the error source show neither the address-NACK nor the data-NACK bit, \<^verbatim>\<open>finish\<close>
  writes 0 to the error event, writes nothing to the error source, and returns 0.
\<close>

theorem finish_other_error_returns_success:
  assumes "finish_wait k dev flag s = (Val (), s1)"
    and "reads s1 = e # v # w # rest"
    and "e \<noteq> 0"
    and "v AND TWIM_ERRORSRC_ANACK_Msk k = 0"
    and "w AND TWIM_ERRORSRC_DNACK_Msk k = 0"
  shows "finish k dev flag s =
           (Val 0,
            s1\<lparr>trace := trace s1 @
                   [In (reg k dev EVENTS_ERROR_INDEX) e, Out (reg k dev EVENTS_ERROR_INDEX) 0,
                    In (reg k dev ERRORSRC_INDEX) v, In (reg k dev ERRORSRC_INDEX) w],
                 reads := rest\<rparr>)"
  using assms by (simp add: finish_def finish_classify_def prims)

text \<open>An error whose source register reads 1 (receive overrun) is reported as success.\<close>

theorem finish_other_error_returns_success_witness:
  "fst (finish_wait dwm1001 0 2 (idle (bytes_at 0 []) [1, 1, 1, 1])) = Val ()
   \<and> reads (snd (finish_wait dwm1001 0 2 (idle (bytes_at 0 []) [1, 1, 1, 1]))) = [1, 1, 1]
   \<and> (1 :: 32 word) \<noteq> 0
   \<and> (1 :: 32 word) AND TWIM_ERRORSRC_ANACK_Msk dwm1001 = 0
   \<and> (1 :: 32 word) AND TWIM_ERRORSRC_DNACK_Msk dwm1001 = 0
   \<and> fst (finish dwm1001 0 2 (idle (bytes_at 0 []) [1, 1, 1, 1])) = Val 0"
proof -
  define sa where "sa = snd (finish_wait dwm1001 0 2 (idle (bytes_at 0 []) [1, 1, 1, 1]))"
  have a: "finish_wait dwm1001 0 2 (idle (bytes_at 0 []) [1, 1, 1, 1]) = (Val (), sa)"
    and ra: "reads sa = [1, 1, 1]"
    by (simp_all add: sa_def run prims)
  have m: "(1 :: 32 word) AND TWIM_ERRORSRC_ANACK_Msk dwm1001 = 0"
    "(1 :: 32 word) AND TWIM_ERRORSRC_DNACK_Msk dwm1001 = 0"
    by (simp_all add: dwm1001_def)
  from finish_other_error_returns_success [OF a ra _ m] a ra m
  show ?thesis by simp
qed

subsection \<open>Flag validation\<close>

text \<open>
  C3 fails as stated: a plain write whose source lies outside RAM takes the lock of the
  transaction buffer and copies the source into the buffer before
  \<^verbatim>\<open>direct_i2c_write_bytes\<close> tests the flags. A write of one byte from address 0x1000
  (flash) with the suppress-start flag returns not-supported after locking, overwriting
  the first byte of the buffer, and unlocking.
\<close>

theorem staged_write_rejected_after_staging:
  "(8 :: 8 word) AND I2C_NOSTART dwm1001 \<noteq> 0
   \<and> fst (i2c_write_bytes dwm1001 0 0x50 0x1000 1 8 (idle (bytes_at 0x1000 [0x77]) []))
       = Val (- EOPNOTSUPP dwm1001)
   \<and> trace (snd (i2c_write_bytes dwm1001 0 0x50 0x1000 1 8 (idle (bytes_at 0x1000 [0x77]) [])))
       = [Lock Buffer_lock, Unlock Buffer_lock]
   \<and> trace (idle (bytes_at 0x1000 [0x77]) []) = []
   \<and> mem (snd (i2c_write_bytes dwm1001 0 0x50 0x1000 1 8 (idle (bytes_at 0x1000 [0x77]) [])))
        (tx_buf dwm1001) = 0x77
   \<and> mem (idle (bytes_at 0x1000 [0x77]) []) (tx_buf dwm1001) = 0"
  by (simp add: run steps return_def)

text \<open>
  C3, amended. For arguments that pass the entry assertions and flags with
  suppress-start or 10-bit-address set, every transfer operation returns not-supported
  and makes no register access. \<^verbatim>\<open>i2c_write_regs\<close>, \<^verbatim>\<open>i2c_read_bytes\<close>,
  \<^verbatim>\<open>i2c_read_regs\<close> and a plain write from RAM leave the whole state unchanged; a plain
  write from outside RAM, the lock being free, locks the transaction buffer, copies
  \<open>len\<close> bytes into it and unlocks it, and changes nothing else.
\<close>

theorem unsupported_flags_rejected:
  assumes "dev < I2C_NUMOF k" and "data \<noteq> 0" and "0 < len" and "len < 256"
    and "flags AND I2C_NOSTART k \<noteq> 0 \<or> flags AND I2C_ADDR10 k \<noteq> 0"
  shows "(len < 253 \<longrightarrow>
            i2c_write_regs k dev addr rg data len flags s = (Val (- EOPNOTSUPP k), s))
       \<and> i2c_read_bytes k dev addr data len flags s = (Val (- EOPNOTSUPP k), s)
       \<and> i2c_read_regs k dev addr rg data len flags s = (Val (- EOPNOTSUPP k), s)
       \<and> (in_ram k data \<longrightarrow>
            i2c_write_bytes k dev addr data len flags s = (Val (- EOPNOTSUPP k), s))
       \<and> (\<not> in_ram k data \<and> \<not> locked s Buffer_lock \<and> tx_buf k \<noteq> 0 \<longrightarrow>
            i2c_write_bytes k dev addr data len flags s =
              (Val (- EOPNOTSUPP k),
               s\<lparr>mem := copied (tx_buf k) data len (mem s),
                  trace := trace s @ [Lock Buffer_lock, Unlock Buffer_lock]\<rparr>))"
proof -
  from assms(5) have rej: "flags AND (I2C_NOSTART k OR I2C_ADDR10 k) \<noteq> 0"
    by (simp add: and_or_eq_0_iff)
  then have rej3: "flags AND (I2C_NOSTART k OR I2C_ADDR10 k OR I2C_NOSTOP k) \<noteq> 0"
    by (auto simp: and_or_eq_0_iff)
  have 1: "len < 253 \<longrightarrow>
      i2c_write_regs k dev addr rg data len flags s = (Val (- EOPNOTSUPP k), s)"
    using assms(1-3) rej by (simp add: i2c_write_regs_def steps return_def)
  have 2: "i2c_read_bytes k dev addr data len flags s = (Val (- EOPNOTSUPP k), s)"
    using assms(1-4) rej3 by (simp add: i2c_read_bytes_def steps return_def)
  have 3: "i2c_read_regs k dev addr rg data len flags s = (Val (- EOPNOTSUPP k), s)"
    using assms(1-4) rej3 by (simp add: i2c_read_regs_def steps return_def)
  have 4: "in_ram k data \<longrightarrow>
      i2c_write_bytes k dev addr data len flags s = (Val (- EOPNOTSUPP k), s)"
    using direct_rejected [OF assms(1-4) rej] by (simp add: i2c_write_bytes_def)
  have 5: "\<not> in_ram k data \<and> \<not> locked s Buffer_lock \<and> tx_buf k \<noteq> 0 \<longrightarrow>
      i2c_write_bytes k dev addr data len flags s =
        (Val (- EOPNOTSUPP k),
         s\<lparr>mem := copied (tx_buf k) data len (mem s),
            trace := trace s @ [Lock Buffer_lock, Unlock Buffer_lock]\<rparr>)"
  proof (intro impI, elim conjE)
    assume a: "\<not> in_ram k data" "\<not> locked s Buffer_lock" "tx_buf k \<noteq> 0"
    from a(2) have idem: "(locked s)(Buffer_lock := False) = locked s"
      by (simp add: fun_upd_idem)
    from a assms(3,4) show "i2c_write_bytes k dev addr data len flags s =
        (Val (- EOPNOTSUPP k),
         s\<lparr>mem := copied (tx_buf k) data len (mem s),
            trace := trace s @ [Lock Buffer_lock, Unlock Buffer_lock]\<rparr>)"
      by (simp add: i2c_write_bytes_def steps return_def
          then_do_Val [OF direct_rejected [OF assms(1) a(3) assms(3,4) rej]] idem)
  qed
  from 1 2 3 4 5 show ?thesis by blast
qed

theorem unsupported_flags_rejected_witness:
  "(0 :: nat) < I2C_NUMOF dwm1001 \<and> (0x20000100 :: 32 word) \<noteq> 0 \<and> (0 :: 32 word) < 2
   \<and> (2 :: 32 word) < 256 \<and> (2 :: 32 word) < 253
   \<and> (8 :: 8 word) AND I2C_NOSTART dwm1001 \<noteq> 0
   \<and> in_ram dwm1001 0x20000100
   \<and> i2c_write_regs dwm1001 0 0x50 0x10 0x20000100 2 8 (idle (bytes_at 0x20000100 [0xAA, 0xBB]) [])
       = (Val (- 95), idle (bytes_at 0x20000100 [0xAA, 0xBB]) [])
   \<and> i2c_read_bytes dwm1001 0 0x50 0x20000100 2 8 (idle (bytes_at 0x20000100 [0xAA, 0xBB]) [])
       = (Val (- 95), idle (bytes_at 0x20000100 [0xAA, 0xBB]) [])
   \<and> i2c_read_regs dwm1001 0 0x50 0x10 0x20000100 2 8 (idle (bytes_at 0x20000100 [0xAA, 0xBB]) [])
       = (Val (- 95), idle (bytes_at 0x20000100 [0xAA, 0xBB]) [])
   \<and> i2c_write_bytes dwm1001 0 0x50 0x20000100 2 8 (idle (bytes_at 0x20000100 [0xAA, 0xBB]) [])
       = (Val (- 95), idle (bytes_at 0x20000100 [0xAA, 0xBB]) [])"
proof -
  have h: "(0 :: nat) < I2C_NUMOF dwm1001" "(0x20000100 :: 32 word) \<noteq> 0" "(0 :: 32 word) < 2"
    "(2 :: 32 word) < 256"
    "(8 :: 8 word) AND I2C_NOSTART dwm1001 \<noteq> 0 \<or> (8 :: 8 word) AND I2C_ADDR10 dwm1001 \<noteq> 0"
    by (simp_all add: I2C_NUMOF_def i2c_config_def dwm1001_def)
  have r: "in_ram dwm1001 0x20000100" "(2 :: 32 word) < 253"
    "(8 :: 8 word) AND I2C_NOSTART dwm1001 \<noteq> 0" "EOPNOTSUPP dwm1001 = 95"
    by (simp_all add: in_ram_def dwm1001_def)
  from unsupported_flags_rejected [OF h, where addr = "0x50" and rg = "0x10"
      and s = "idle (bytes_at 0x20000100 [0xAA, 0xBB]) []"]
    h r
  show ?thesis by simp
qed

subsection \<open>Register selector\<close>

text \<open>
  C4. In every accepted register-prefixed operation the register value \<open>rg\<close> lies in
  the buffer the hardware transmits from (\<^verbatim>\<open>tx_buf\<close> for \<^verbatim>\<open>i2c_write_regs\<close>, the
  variable \<^verbatim>\<open>reg\<close> itself for \<^verbatim>\<open>i2c_read_regs\<close>, whose transmit count is 2 or 1):
  with the 16-bit-register flag as the two bytes \<open>rg >> 8\<close>, \<open>rg & 0xFF\<close> in this order,
  without it as the one byte \<open>rg & 0xFF\<close>.
\<close>

theorem register_selector_on_buffer:
  assumes "wf_platform k" and "dev < I2C_NUMOF k" and "data \<noteq> 0" and "0 < len" and "len < 256"
    and "flags AND (I2C_NOSTART k OR I2C_ADDR10 k) = 0"
  shows "(len < 253 \<and> \<not> locked s Buffer_lock \<longrightarrow>
           (let s' = snd (i2c_write_regs k dev addr rg data len flags s) in
              Out (reg k dev TXD_PTR_INDEX) (tx_buf k) \<in> set (new_events s s')
              \<and> (if flags AND I2C_REG16 k \<noteq> 0
                  then mem s' (tx_buf k) = ucast (drop_bit 8 rg)
                     \<and> mem s' (tx_buf k + 1) = ucast (rg AND 0xFF)
                  else mem s' (tx_buf k) = ucast (rg AND 0xFF))))
       \<and> (flags AND I2C_NOSTOP k = 0 \<longrightarrow>
           (let s' = snd (i2c_read_regs k dev addr rg data len flags s) in
              Out (reg k dev TXD_PTR_INDEX) (reg_local k) \<in> set (new_events s s')
              \<and> (if flags AND I2C_REG16 k \<noteq> 0
                  then Out (reg k dev TXD_MAXCNT_INDEX) 2 \<in> set (new_events s s')
                     \<and> mem s' (reg_local k) = ucast (drop_bit 8 rg)
                     \<and> mem s' (reg_local k + 1) = ucast (rg AND 0xFF)
                  else Out (reg k dev TXD_MAXCNT_INDEX) 1 \<in> set (new_events s s')
                     \<and> mem s' (reg_local k) = ucast (rg AND 0xFF))))"
proof (intro conjI impI)
  assume a: "len < 253 \<and> \<not> locked s Buffer_lock"
  from assms(1) have nz: "tx_buf k \<noteq> 0" by (simp add: wf_platform_def)
  from a have l: "len < 253" and u: "\<not> locked s Buffer_lock" by simp_all
  note k = copied_selector [OF l]
  from i2c_write_regs_frame [OF assms(2-4) l assms(6) u nz, of addr rg]
  show "let s' = snd (i2c_write_regs k dev addr rg data len flags s) in
              Out (reg k dev TXD_PTR_INDEX) (tx_buf k) \<in> set (new_events s s')
              \<and> (if flags AND I2C_REG16 k \<noteq> 0
                  then mem s' (tx_buf k) = ucast (drop_bit 8 rg)
                     \<and> mem s' (tx_buf k + 1) = ucast (rg AND 0xFF)
                  else mem s' (tx_buf k) = ucast (rg AND 0xFF))"
    by (auto simp: Let_def write_setup_def k ucast_low_byte)
next
  assume "flags AND I2C_NOSTOP k = 0"
  with assms(6) have acc: "flags AND (I2C_NOSTART k OR I2C_ADDR10 k OR I2C_NOSTOP k) = 0"
    by (simp add: and_or_eq_0_iff)
  from i2c_read_regs_frame [OF assms(1-5) acc, of s addr rg]
  show "let s' = snd (i2c_read_regs k dev addr rg data len flags s) in
              Out (reg k dev TXD_PTR_INDEX) (reg_local k) \<in> set (new_events s s')
              \<and> (if flags AND I2C_REG16 k \<noteq> 0
                  then Out (reg k dev TXD_MAXCNT_INDEX) 2 \<in> set (new_events s s')
                     \<and> mem s' (reg_local k) = ucast (drop_bit 8 rg)
                     \<and> mem s' (reg_local k + 1) = ucast (rg AND 0xFF)
                  else Out (reg k dev TXD_MAXCNT_INDEX) 1 \<in> set (new_events s s')
                     \<and> mem s' (reg_local k) = ucast (rg AND 0xFF))"
    by (auto simp: Let_def read_regs_setup_def reg_addr_len_def ucast_low_byte)
qed

text \<open>The register 0x1234 with the 16-bit flag: the bytes 0x12, 0x34, written and read.\<close>

theorem register_selector_on_buffer_witness:
  "wf_platform dwm1001 \<and> (0 :: nat) < I2C_NUMOF dwm1001 \<and> (0x20000100 :: 32 word) \<noteq> 0
   \<and> (0 :: 32 word) < 2 \<and> (2 :: 32 word) < 256 \<and> (2 :: 32 word) < 253
   \<and> (2 :: 8 word) AND (I2C_NOSTART dwm1001 OR I2C_ADDR10 dwm1001) = 0
   \<and> (2 :: 8 word) AND I2C_NOSTOP dwm1001 = 0
   \<and> (2 :: 8 word) AND I2C_REG16 dwm1001 \<noteq> 0
   \<and> \<not> locked (idle (bytes_at 0x20000100 [0xAA, 0xBB]) [1, 0]) Buffer_lock
   \<and> mem (snd (i2c_write_regs dwm1001 0 0x50 0x1234 0x20000100 2 2
                  (idle (bytes_at 0x20000100 [0xAA, 0xBB]) [1, 0]))) (tx_buf dwm1001) = 0x12
   \<and> mem (snd (i2c_write_regs dwm1001 0 0x50 0x1234 0x20000100 2 2
                  (idle (bytes_at 0x20000100 [0xAA, 0xBB]) [1, 0]))) (tx_buf dwm1001 + 1) = 0x34
   \<and> mem (snd (i2c_read_regs dwm1001 0 0x50 0x1234 0x20000100 2 2
                  (idle (bytes_at 0x20000100 [0xAA, 0xBB]) [1, 0]))) (reg_local dwm1001) = 0x12
   \<and> mem (snd (i2c_read_regs dwm1001 0 0x50 0x1234 0x20000100 2 2
                  (idle (bytes_at 0x20000100 [0xAA, 0xBB]) [1, 0]))) (reg_local dwm1001 + 1) = 0x34"
proof -
  have h: "(0 :: nat) < I2C_NUMOF dwm1001" "(0x20000100 :: 32 word) \<noteq> 0" "(0 :: 32 word) < 2"
    "(2 :: 32 word) < 256"
    "(2 :: 8 word) AND (I2C_NOSTART dwm1001 OR I2C_ADDR10 dwm1001) = 0"
    by (simp_all add: I2C_NUMOF_def i2c_config_def dwm1001_def)
  have r: "(2 :: 32 word) < 253" "(2 :: 8 word) AND I2C_NOSTOP dwm1001 = 0"
    "(2 :: 8 word) AND I2C_REG16 dwm1001 \<noteq> 0"
    "\<not> locked (idle (bytes_at 0x20000100 [0xAA, 0xBB]) [1, 0]) Buffer_lock"
    by (simp_all add: dwm1001_def idle_def)
  have v: "(ucast (drop_bit 8 (0x1234 :: 16 word)) :: 8 word) = 0x12"
    "(ucast (0x1234 AND 0xFF :: 16 word) :: 8 word) = 0x34"
    by simp_all
  from register_selector_on_buffer [OF wf_dwm1001 h,
      where s = "idle (bytes_at 0x20000100 [0xAA, 0xBB]) [1, 0]" and addr = "0x50"
        and rg = "0x1234"]
    wf_dwm1001 h r v
  show ?thesis by (simp add: Let_def)
qed

subsection \<open>Register-prefixed write\<close>

text \<open>
  C5. Every accepted register-prefixed write (the lock being free, the source not
  overlapping the two selector bytes of \<^verbatim>\<open>tx_buf\<close>) first takes the lock of the
  transaction buffer and releases it only as its last step, when the transfer has
  returned; the buffer then holds the selector (1 or 2 bytes) and, right behind it, the
  \<open>len\<close> bytes of the source; and the hardware is programmed exactly once: address
  \<open>addr\<close>, transmit pointer \<^verbatim>\<open>tx_buf\<close>, transmit count \<open>reg_addr_len + len\<close>, one
  start-transmit task.
\<close>

theorem write_regs_stages_and_writes_once:
  assumes "wf_platform k" and "dev < I2C_NUMOF k" and "data \<noteq> 0" and "0 < len" and "len < 253"
    and "flags AND (I2C_NOSTART k OR I2C_ADDR10 k) = 0"
    and "\<not> locked s Buffer_lock"
    and "\<not> tx_buf k - data < len" and "\<not> tx_buf k + 1 - data < len"
  shows "let res = i2c_write_regs k dev addr rg data len flags s;
             s' = snd res; new = new_events s s'
         in (\<exists>post. list_all (io_event k dev) post
               \<and> new = Lock Buffer_lock
                   # write_setup k dev addr (tx_buf k) (reg_addr_len k flags + len) flags
                   @ wait_events k dev (write_success_flag k flags) s @ post
                   @ (case fst res of Val x \<Rightarrow> [Unlock Buffer_lock] | Halt h \<Rightarrow> []))
          \<and> (if flags AND I2C_REG16 k \<noteq> 0
              then mem s' (tx_buf k) = ucast (drop_bit 8 rg)
                 \<and> mem s' (tx_buf k + 1) = ucast (rg AND 0xFF)
              else mem s' (tx_buf k) = ucast (rg AND 0xFF))
          \<and> (\<forall>i. i < len \<longrightarrow> mem s' (tx_buf k + reg_addr_len k flags + i) = mem s (data + i))
          \<and> writes_to (reg k dev ADDRESS_INDEX) new = [ucast addr]
          \<and> writes_to (reg k dev TXD_PTR_INDEX) new = [tx_buf k]
          \<and> writes_to (reg k dev TXD_MAXCNT_INDEX) new = [reg_addr_len k flags + len]
          \<and> writes_to (reg k dev TASKS_STARTTX_INDEX) new = [1]"
proof -
  define res where "res = i2c_write_regs k dev addr rg data len flags s"
  define s' where "s' = snd res"
  define n where "n = reg_addr_len k flags + len"
  from assms(1) have nz: "tx_buf k \<noteq> 0" by (simp add: wf_platform_def)
  from i2c_write_regs_frame [OF assms(2-7) nz, of addr rg]
  obtain post where post: "list_all (io_event k dev) post"
    and new: "new_events s s' = Lock Buffer_lock
                   # write_setup k dev addr (tx_buf k) n flags
                   @ wait_events k dev (write_success_flag k flags) s @ post
                   @ (case fst res of Val x \<Rightarrow> [Unlock Buffer_lock] | Halt h \<Rightarrow> [])"
    and m: "mem s' =
         (if flags AND I2C_REG16 k \<noteq> 0
          then copied (tx_buf k + 2) data len
                 ((mem s)(tx_buf k := ucast (drop_bit 8 rg),
                          tx_buf k + 1 := ucast (rg AND 0xFF)))
          else copied (tx_buf k + 1) data len ((mem s)(tx_buf k := ucast rg)))"
    unfolding res_def s'_def n_def by blast
  note sel = copied_selector [OF assms(5)]
  have bytes: "if flags AND I2C_REG16 k \<noteq> 0
              then mem s' (tx_buf k) = ucast (drop_bit 8 rg)
                 \<and> mem s' (tx_buf k + 1) = ucast (rg AND 0xFF)
              else mem s' (tx_buf k) = ucast (rg AND 0xFF)"
    by (simp add: m sel ucast_low_byte)
  have payload: "\<forall>i. i < len \<longrightarrow> mem s' (tx_buf k + reg_addr_len k flags + i) = mem s (data + i)"
  proof (intro allI impI)
    fix i assume i: "i < len"
    note ne = copied_payload [OF i assms(8)] copied_payload [OF i assms(9)]
    from i ne show "mem s' (tx_buf k + reg_addr_len k flags + i) = mem s (data + i)"
      by (simp add: m reg_addr_len_def copied_inside)
  qed
  have n8: "(ucast (ucast n :: 8 word) :: 32 word) = n"
    using word_len_bounds [OF assms(4,5)]
    by (intro ucast_len8) (simp add: n_def reg_addr_len_def)
  have tail: "writes_to a (case fst res of Val x \<Rightarrow> [Unlock Buffer_lock] | Halt h \<Rightarrow> []) = []"
    for a
    by (cases "fst res") simp_all
  have w: "writes_to (reg k dev ADDRESS_INDEX) (new_events s s') = [ucast addr]"
    "writes_to (reg k dev TXD_PTR_INDEX) (new_events s s') = [tx_buf k]"
    "writes_to (reg k dev TXD_MAXCNT_INDEX) (new_events s s') = [n]"
    "writes_to (reg k dev TASKS_STARTTX_INDEX) (new_events s s') = [1]"
    by (simp_all add: new writes_to_append writes_to_write_setup [OF assms(1)]
        writes_to_wait [OF assms(1)] writes_to_io [OF assms(1) post] tail n8)
  from post new bytes payload w show ?thesis
    unfolding Let_def res_def [symmetric] s'_def [symmetric] n_def [symmetric]
    by blast
qed

text \<open>
  The scenario of the specification: \<^verbatim>\<open>i2c_write_regs(0, 0x50, 0x10, {0xAA, 0xBB}, 2, 0)\<close>
  stages 0x10, 0xAA, 0xBB and starts one write of 3 bytes to address 0x50.
\<close>

theorem write_regs_stages_and_writes_once_witness:
  "wf_platform dwm1001 \<and> (0 :: nat) < I2C_NUMOF dwm1001 \<and> (0x20000100 :: 32 word) \<noteq> 0
   \<and> (0 :: 32 word) < 2 \<and> (2 :: 32 word) < 253
   \<and> (0 :: 8 word) AND (I2C_NOSTART dwm1001 OR I2C_ADDR10 dwm1001) = 0
   \<and> \<not> locked (idle (bytes_at 0x20000100 [0xAA, 0xBB]) [1, 0]) Buffer_lock
   \<and> \<not> tx_buf dwm1001 - 0x20000100 < 2 \<and> \<not> tx_buf dwm1001 + 1 - 0x20000100 < 2
   \<and> map (mem (snd (i2c_write_regs dwm1001 0 0x50 0x10 0x20000100 2 0
                       (idle (bytes_at 0x20000100 [0xAA, 0xBB]) [1, 0]))))
         [0x20000400, 0x20000401, 0x20000402] = [0x10, 0xAA, 0xBB]
   \<and> writes_to (reg dwm1001 0 TXD_MAXCNT_INDEX)
         (new_events (idle (bytes_at 0x20000100 [0xAA, 0xBB]) [1, 0])
            (snd (i2c_write_regs dwm1001 0 0x50 0x10 0x20000100 2 0
                    (idle (bytes_at 0x20000100 [0xAA, 0xBB]) [1, 0])))) = [3]
   \<and> writes_to (reg dwm1001 0 ADDRESS_INDEX)
         (new_events (idle (bytes_at 0x20000100 [0xAA, 0xBB]) [1, 0])
            (snd (i2c_write_regs dwm1001 0 0x50 0x10 0x20000100 2 0
                    (idle (bytes_at 0x20000100 [0xAA, 0xBB]) [1, 0])))) = [0x50]
   \<and> writes_to (reg dwm1001 0 TASKS_STARTTX_INDEX)
         (new_events (idle (bytes_at 0x20000100 [0xAA, 0xBB]) [1, 0])
            (snd (i2c_write_regs dwm1001 0 0x50 0x10 0x20000100 2 0
                    (idle (bytes_at 0x20000100 [0xAA, 0xBB]) [1, 0])))) = [1]"
proof -
  let ?s = "idle (bytes_at 0x20000100 [0xAA, 0xBB]) [1, 0]"
  let ?s' = "snd (i2c_write_regs dwm1001 0 0x50 0x10 0x20000100 2 0 ?s)"
  have h: "(0x20000100 :: 32 word) \<noteq> 0" "(0 :: 32 word) < 2" "(2 :: 32 word) < 253"
    "(0 :: 8 word) AND (I2C_NOSTART dwm1001 OR I2C_ADDR10 dwm1001) = 0"
    "\<not> locked ?s Buffer_lock"
    "\<not> tx_buf dwm1001 - 0x20000100 < 2" "\<not> tx_buf dwm1001 + 1 - 0x20000100 < 2"
    by (simp_all add: dwm1001_fields idle_def)
  note T = write_regs_stages_and_writes_once [OF wf_dwm1001 contract_dwm1001 h,
      where addr = "0x50" and rg = "0x10", unfolded Let_def]
  from T have sel: "mem ?s' (tx_buf dwm1001) = 0x10"
    by (simp add: dwm1001_fields)
  from T have p: "i < 2 \<Longrightarrow> mem ?s' (tx_buf dwm1001 + reg_addr_len dwm1001 0 + i)
      = mem ?s (0x20000100 + i)" for i
    by blast
  from p [of 0] p [of 1] have pay: "mem ?s' 0x20000401 = 0xAA" "mem ?s' 0x20000402 = 0xBB"
    by (simp_all add: dwm1001_fields reg_addr_len_def idle_def bytes_at_def)
  from T have w: "writes_to (reg dwm1001 0 TXD_MAXCNT_INDEX) (new_events ?s ?s') = [3]"
    "writes_to (reg dwm1001 0 ADDRESS_INDEX) (new_events ?s ?s') = [0x50]"
    "writes_to (reg dwm1001 0 TASKS_STARTTX_INDEX) (new_events ?s ?s') = [1]"
    by (simp_all add: dwm1001_fields reg_addr_len_def)
  from wf_dwm1001 contract_dwm1001 h sel pay w show ?thesis
    by (simp add: dwm1001_fields)
qed

subsection \<open>Register-prefixed read\<close>

text \<open>
  C7. Every accepted register-prefixed read programs the hardware once and waits once:
  its trace is the seven programming writes, the events of one wait on the completion
  signal, and then only accesses to the stop event, the error event and the error
  source. The transmit count is the selector length (2 or 1), the receive count is
  \<open>len\<close>; the shorts register is written once, with the two shorts last-transmitted to
  start-receive and last-received to stop, and without the short from the last
  transmitted byte to stop; the start-transmit task is triggered exactly once and no
  start-receive task; the completion signal is acquired at most once.
\<close>

theorem read_regs_single_transaction:
  assumes "wf_platform k" and "dev < I2C_NUMOF k" and "data \<noteq> 0" and "0 < len" and "len < 256"
    and "flags AND (I2C_NOSTART k OR I2C_ADDR10 k OR I2C_NOSTOP k) = 0"
  shows "let new = new_events s (snd (i2c_read_regs k dev addr rg data len flags s))
         in (\<exists>post. list_all (quiet_event k dev) post
               \<and> new = read_regs_setup k dev addr data len flags
                   @ wait_events k dev (TWIM_INTEN_STOPPED_Msk k) s @ post)
          \<and> writes_to (reg k dev TXD_PTR_INDEX) new = [reg_local k]
          \<and> writes_to (reg k dev TXD_MAXCNT_INDEX) new = [reg_addr_len k flags]
          \<and> writes_to (reg k dev RXD_PTR_INDEX) new = [data]
          \<and> writes_to (reg k dev RXD_MAXCNT_INDEX) new = [len]
          \<and> writes_to (reg k dev SHORTS_INDEX) new
              = [TWIM_SHORTS_LASTTX_STARTRX_Msk k OR TWIM_SHORTS_LASTRX_STOP_Msk k]
          \<and> (TWIM_SHORTS_LASTTX_STARTRX_Msk k OR TWIM_SHORTS_LASTRX_STOP_Msk k)
              AND TWIM_SHORTS_LASTTX_STOP_Msk k = 0
          \<and> writes_to (reg k dev TASKS_STARTTX_INDEX) new = [1]
          \<and> writes_to (reg k dev TASKS_STARTRX_INDEX) new = []
          \<and> length (filter (\<lambda>e. e = Lock (Busy dev)) new) \<le> 1"
proof -
  define s' where "s' = snd (i2c_read_regs k dev addr rg data len flags s)"
  from i2c_read_regs_frame [OF assms, of s addr rg]
  obtain post where q: "list_all (quiet_event k dev) post"
    and new: "new_events s s' = read_regs_setup k dev addr data len flags
                   @ wait_events k dev (TWIM_INTEN_STOPPED_Msk k) s @ post"
    unfolding s'_def by blast
  from q have post: "list_all (io_event k dev) post" by (rule quiet_list_io)
  have n8: "(ucast (ucast len :: 8 word) :: 32 word) = len"
    using assms(5) by (rule ucast_len8)
  have w: "writes_to (reg k dev TXD_PTR_INDEX) (new_events s s') = [reg_local k]"
    "writes_to (reg k dev TXD_MAXCNT_INDEX) (new_events s s') = [reg_addr_len k flags]"
    "writes_to (reg k dev RXD_PTR_INDEX) (new_events s s') = [data]"
    "writes_to (reg k dev RXD_MAXCNT_INDEX) (new_events s s') = [len]"
    "writes_to (reg k dev SHORTS_INDEX) (new_events s s')
       = [TWIM_SHORTS_LASTTX_STARTRX_Msk k OR TWIM_SHORTS_LASTRX_STOP_Msk k]"
    "writes_to (reg k dev TASKS_STARTTX_INDEX) (new_events s s') = [1]"
    "writes_to (reg k dev TASKS_STARTRX_INDEX) (new_events s s') = []"
    by (simp_all add: new writes_to_append writes_to_read_regs_setup [OF assms(1)]
        writes_to_wait [OF assms(1)] writes_to_io [OF assms(1) post] n8)
  have sh: "(TWIM_SHORTS_LASTTX_STARTRX_Msk k OR TWIM_SHORTS_LASTRX_STOP_Msk k)
              AND TWIM_SHORTS_LASTTX_STOP_Msk k = 0"
    using assms(1) by (simp add: wf_platform_def)
  have "filter (\<lambda>e. e = Lock (Busy dev)) (read_regs_setup k dev addr data len flags) = []"
    by (simp add: read_regs_setup_def)
  with locks_of_wait [of dev k "TWIM_INTEN_STOPPED_Msk k" s] io_no_lock [OF post, of "Busy dev"]
  have lk: "length (filter (\<lambda>e. e = Lock (Busy dev)) (new_events s s')) \<le> 1"
    by (simp add: new)
  from q new w sh lk show ?thesis
    unfolding Let_def s'_def [symmetric] by blast
qed

text \<open>
  The scenario of the specification: \<^verbatim>\<open>i2c_read_regs(0, 0x50, 0x1234, buf, 4, I2C_REG16)\<close>
  transmits 2 bytes and receives 4, in one transaction.
\<close>

theorem read_regs_single_transaction_witness:
  "wf_platform dwm1001 \<and> (0 :: nat) < I2C_NUMOF dwm1001 \<and> (0x20000100 :: 32 word) \<noteq> 0
   \<and> (0 :: 32 word) < 4 \<and> (4 :: 32 word) < 256
   \<and> (2 :: 8 word) AND (I2C_NOSTART dwm1001 OR I2C_ADDR10 dwm1001 OR I2C_NOSTOP dwm1001) = 0
   \<and> writes_to (reg dwm1001 0 TXD_MAXCNT_INDEX)
        (new_events (idle (bytes_at 0 []) [1, 0])
           (snd (i2c_read_regs dwm1001 0 0x50 0x1234 0x20000100 4 2 (idle (bytes_at 0 []) [1, 0])))) = [2]
   \<and> writes_to (reg dwm1001 0 RXD_MAXCNT_INDEX)
        (new_events (idle (bytes_at 0 []) [1, 0])
           (snd (i2c_read_regs dwm1001 0 0x50 0x1234 0x20000100 4 2 (idle (bytes_at 0 []) [1, 0])))) = [4]
   \<and> writes_to (reg dwm1001 0 SHORTS_INDEX)
        (new_events (idle (bytes_at 0 []) [1, 0])
           (snd (i2c_read_regs dwm1001 0 0x50 0x1234 0x20000100 4 2 (idle (bytes_at 0 []) [1, 0]))))
        = [0x1080]
   \<and> writes_to (reg dwm1001 0 TASKS_STARTTX_INDEX)
        (new_events (idle (bytes_at 0 []) [1, 0])
           (snd (i2c_read_regs dwm1001 0 0x50 0x1234 0x20000100 4 2 (idle (bytes_at 0 []) [1, 0])))) = [1]"
proof -
  have h: "(0x20000100 :: 32 word) \<noteq> 0" "(0 :: 32 word) < 4" "(4 :: 32 word) < 256"
    "(2 :: 8 word) AND (I2C_NOSTART dwm1001 OR I2C_ADDR10 dwm1001 OR I2C_NOSTOP dwm1001) = 0"
    by (simp_all add: dwm1001_fields)
  have sh: "TWIM_SHORTS_LASTTX_STARTRX_Msk dwm1001 OR TWIM_SHORTS_LASTRX_STOP_Msk dwm1001 = 0x1080"
    by (simp add: dwm1001_def)
  from read_regs_single_transaction [OF wf_dwm1001 contract_dwm1001 h,
      where s = "idle (bytes_at 0 []) [1, 0]" and addr = "0x50" and rg = "0x1234", unfolded Let_def]
    wf_dwm1001 contract_dwm1001 h
  show ?thesis
    by (simp add: reg_addr_len_def dwm1001_fields sh)
qed

subsection \<open>Suppress-stop\<close>

text \<open>
  C1 fails as stated for \<^verbatim>\<open>i2c_write_regs\<close>: it tests the flags suppress-start and
  10-bit-address only, and hands the flags on to \<^verbatim>\<open>direct_i2c_write_bytes\<close>, which
  supports suppress-stop. A register-prefixed write of one byte with suppress-stop
  returns 0 once the poll loop sees the two byte counts agree.
\<close>

theorem write_regs_accepts_nostop:
  "(4 :: 8 word) AND I2C_NOSTOP dwm1001 \<noteq> 0
   \<and> fst (i2c_write_regs dwm1001 0 0x50 0x10 0x20000100 1 4
            (idle (bytes_at 0x20000100 [0xAA]) [0, 2, 2, 0])) = Val 0
   \<and> Val (0 :: int) \<noteq> Val (- EOPNOTSUPP dwm1001)"
  by (simp add: run steps prims poll_lasttx.simps)

text \<open>
  C1, amended. Suppress-stop is rejected by the two read operations: for arguments that
  pass the entry assertion, \<^verbatim>\<open>i2c_read_bytes\<close> and \<^verbatim>\<open>i2c_read_regs\<close> return not-supported
  whenever the flag is set, and change nothing. The two write operations accept it: with
  the flag set and neither suppress-start nor 10-bit-address, \<^verbatim>\<open>i2c_write_bytes\<close> and
  \<^verbatim>\<open>i2c_write_regs\<close> write 0 to the shorts register and trigger the start-transmit task.
\<close>

theorem nostop_rejected_by_reads_only:
  assumes "dev < I2C_NUMOF k" and "data \<noteq> 0" and "0 < len" and "len < 256"
    and "flags AND I2C_NOSTOP k \<noteq> 0"
  shows "i2c_read_bytes k dev addr data len flags s = (Val (- EOPNOTSUPP k), s)
       \<and> i2c_read_regs k dev addr rg data len flags s = (Val (- EOPNOTSUPP k), s)
       \<and> (flags AND (I2C_NOSTART k OR I2C_ADDR10 k) = 0 \<and> \<not> locked s Buffer_lock
            \<and> tx_buf k \<noteq> 0 \<longrightarrow>
            Out (reg k dev SHORTS_INDEX) 0
              \<in> set (new_events s (snd (i2c_write_bytes k dev addr data len flags s)))
          \<and> Out (reg k dev TASKS_STARTTX_INDEX) 1
              \<in> set (new_events s (snd (i2c_write_bytes k dev addr data len flags s)))
          \<and> (len < 253 \<longrightarrow>
               Out (reg k dev SHORTS_INDEX) 0
                 \<in> set (new_events s (snd (i2c_write_regs k dev addr rg data len flags s)))
             \<and> Out (reg k dev TASKS_STARTTX_INDEX) 1
                 \<in> set (new_events s (snd (i2c_write_regs k dev addr rg data len flags s)))))"
proof -
  from assms(5) have rej: "flags AND (I2C_NOSTART k OR I2C_ADDR10 k OR I2C_NOSTOP k) \<noteq> 0"
    by (auto simp: and_or_eq_0_iff)
  have 1: "i2c_read_bytes k dev addr data len flags s = (Val (- EOPNOTSUPP k), s)"
    using assms(1-4) rej by (simp add: i2c_read_bytes_def steps return_def)
  have 2: "i2c_read_regs k dev addr rg data len flags s = (Val (- EOPNOTSUPP k), s)"
    using assms(1-4) rej by (simp add: i2c_read_regs_def steps return_def)
  have 3: "Out (reg k dev SHORTS_INDEX) 0
              \<in> set (new_events s (snd (i2c_write_bytes k dev addr data len flags s)))
          \<and> Out (reg k dev TASKS_STARTTX_INDEX) 1
              \<in> set (new_events s (snd (i2c_write_bytes k dev addr data len flags s)))"
    if a: "flags AND (I2C_NOSTART k OR I2C_ADDR10 k) = 0" "\<not> locked s Buffer_lock"
      "tx_buf k \<noteq> 0"
    using i2c_write_bytes_frame [OF assms(1-4) a, of addr] assms(5)
    by (auto simp: write_setup_def)
  have 4: "Out (reg k dev SHORTS_INDEX) 0
                 \<in> set (new_events s (snd (i2c_write_regs k dev addr rg data len flags s)))
             \<and> Out (reg k dev TASKS_STARTTX_INDEX) 1
                 \<in> set (new_events s (snd (i2c_write_regs k dev addr rg data len flags s)))"
    if a: "flags AND (I2C_NOSTART k OR I2C_ADDR10 k) = 0" "\<not> locked s Buffer_lock"
      "tx_buf k \<noteq> 0" and l: "len < 253"
    using i2c_write_regs_frame [OF assms(1-3) l a, of addr rg] assms(5)
    by (auto simp: write_setup_def)
  from 1 2 3 4 show ?thesis by blast
qed

theorem nostop_rejected_by_reads_only_witness:
  "(0 :: nat) < I2C_NUMOF dwm1001 \<and> (0x20000100 :: 32 word) \<noteq> 0
   \<and> (0 :: 32 word) < 1 \<and> (1 :: 32 word) < 256
   \<and> (4 :: 8 word) AND I2C_NOSTOP dwm1001 \<noteq> 0
   \<and> i2c_read_bytes dwm1001 0 0x50 0x20000100 1 4 (idle (bytes_at 0x20000100 [0xAA]) [0, 2, 2, 0])
       = (Val (- 95), idle (bytes_at 0x20000100 [0xAA]) [0, 2, 2, 0])
   \<and> i2c_read_regs dwm1001 0 0x50 0x10 0x20000100 1 4
         (idle (bytes_at 0x20000100 [0xAA]) [0, 2, 2, 0])
       = (Val (- 95), idle (bytes_at 0x20000100 [0xAA]) [0, 2, 2, 0])
   \<and> Out (reg dwm1001 0 TASKS_STARTTX_INDEX) 1
       \<in> set (new_events (idle (bytes_at 0x20000100 [0xAA]) [0, 2, 2, 0])
                (snd (i2c_write_bytes dwm1001 0 0x50 0x20000100 1 4
                        (idle (bytes_at 0x20000100 [0xAA]) [0, 2, 2, 0]))))
   \<and> Out (reg dwm1001 0 TASKS_STARTTX_INDEX) 1
       \<in> set (new_events (idle (bytes_at 0x20000100 [0xAA]) [0, 2, 2, 0])
                (snd (i2c_write_regs dwm1001 0 0x50 0x10 0x20000100 1 4
                        (idle (bytes_at 0x20000100 [0xAA]) [0, 2, 2, 0]))))"
proof -
  have h: "(0x20000100 :: 32 word) \<noteq> 0" "(0 :: 32 word) < 1" "(1 :: 32 word) < 256"
    "(4 :: 8 word) AND I2C_NOSTOP dwm1001 \<noteq> 0"
    by (simp_all add: dwm1001_fields)
  have r: "(4 :: 8 word) AND (I2C_NOSTART dwm1001 OR I2C_ADDR10 dwm1001) = 0"
    "\<not> locked (idle (bytes_at 0x20000100 [0xAA]) [0, 2, 2, 0]) Buffer_lock"
    "tx_buf dwm1001 \<noteq> 0" "(1 :: 32 word) < 253"
    by (simp_all add: dwm1001_fields idle_def)
  from nostop_rejected_by_reads_only [OF contract_dwm1001 h,
      where s = "idle (bytes_at 0x20000100 [0xAA]) [0, 2, 2, 0]" and addr = "0x50"
        and rg = "0x10"]
    contract_dwm1001 h r
  show ?thesis
    by (simp add: dwm1001_fields)
qed

subsection \<open>Plain write: stop or poll\<close>



subsection \<open>Plain write: direct or staged\<close>

text \<open>
  C8. For every accepted plain write: when the source address lies in RAM (and is not
  null), \<^verbatim>\<open>i2c_write_bytes\<close> is \<^verbatim>\<open>direct_i2c_write_bytes\<close> on the caller's buffer, and
  the transmit pointer is written once, with the caller's address. Otherwise, the lock
  being free, it locks the transaction buffer, copies the \<open>len\<close> bytes into it, runs
  \<^verbatim>\<open>direct_i2c_write_bytes\<close> on the buffer, and unlocks as its last step when that
  returns: the transmit pointer is written once, with the address of the buffer, which
  holds the caller's \<open>len\<close> bytes, and the result is the result of that direct write.
  On both paths the transmit count is \<open>len\<close>.
\<close>

theorem plain_write_direct_or_staged:
  assumes "wf_platform k" and "dev < I2C_NUMOF k" and "0 < len" and "len < 256"
    and "flags AND (I2C_NOSTART k OR I2C_ADDR10 k) = 0"
  shows "(in_ram k data \<and> data \<noteq> 0 \<longrightarrow>
           (let res = i2c_write_bytes k dev addr data len flags s;
                new = new_events s (snd res)
            in res = direct_i2c_write_bytes k dev addr data len flags s
             \<and> writes_to (reg k dev TXD_PTR_INDEX) new = [data]
             \<and> writes_to (reg k dev TXD_MAXCNT_INDEX) new = [len]
             \<and> mem (snd res) = mem s))
       \<and> (\<not> in_ram k data \<and> \<not> locked s Buffer_lock \<longrightarrow>
           (let res = i2c_write_bytes k dev addr data len flags s;
                new = new_events s (snd res);
                s1 = s\<lparr>locked := (locked s)(Buffer_lock := True),
                       trace := trace s @ [Lock Buffer_lock],
                       mem := copied (tx_buf k) data len (mem s)\<rparr>;
                d = direct_i2c_write_bytes k dev addr (tx_buf k) len flags s1
            in fst res = fst d
             \<and> snd res = (case fst d of
                            Val r \<Rightarrow> (snd d)\<lparr>locked := (locked (snd d))(Buffer_lock := False),
                                             trace := trace (snd d) @ [Unlock Buffer_lock]\<rparr>
                          | Halt h \<Rightarrow> snd d)
             \<and> (\<exists>post. list_all (io_event k dev) post
                   \<and> new = Lock Buffer_lock # write_setup k dev addr (tx_buf k) len flags
                       @ wait_events k dev (write_success_flag k flags) s @ post
                       @ (case fst res of Val x \<Rightarrow> [Unlock Buffer_lock] | Halt h \<Rightarrow> []))
             \<and> writes_to (reg k dev TXD_PTR_INDEX) new = [tx_buf k]
             \<and> writes_to (reg k dev TXD_MAXCNT_INDEX) new = [len]
             \<and> (\<forall>i. i < len \<longrightarrow> mem (snd res) (tx_buf k + i) = mem s (data + i))))"
proof -
  have n8: "(ucast (ucast len :: 8 word) :: 32 word) = len"
    using assms(4) by (rule ucast_len8)
  show ?thesis
  proof (intro conjI impI)
    assume a: "in_ram k data \<and> data \<noteq> 0"
    then have eq: "i2c_write_bytes k dev addr data len flags s
        = direct_i2c_write_bytes k dev addr data len flags s"
      by (simp add: i2c_write_bytes_def)
    from a have nz: "data \<noteq> 0" by simp
    from direct_frame [OF assms(2) nz assms(3-5), of addr s]
    obtain post where post: "list_all (io_event k dev) post"
      and new: "new_events s (snd (direct_i2c_write_bytes k dev addr data len flags s))
          = write_setup k dev addr data len flags
             @ wait_events k dev (write_success_flag k flags) s @ post"
      and m: "mem (snd (direct_i2c_write_bytes k dev addr data len flags s)) = mem s"
      by (auto simp: new_events_def)
    show "let res = i2c_write_bytes k dev addr data len flags s;
                new = new_events s (snd res)
            in res = direct_i2c_write_bytes k dev addr data len flags s
             \<and> writes_to (reg k dev TXD_PTR_INDEX) new = [data]
             \<and> writes_to (reg k dev TXD_MAXCNT_INDEX) new = [len]
             \<and> mem (snd res) = mem s"
      unfolding Let_def eq
      by (simp add: new m writes_to_append writes_to_write_setup [OF assms(1)]
          writes_to_wait [OF assms(1)] writes_to_io [OF assms(1) post] n8)
  next
    assume a: "\<not> in_ram k data \<and> \<not> locked s Buffer_lock"
    then have nr: "\<not> in_ram k data" and u: "\<not> locked s Buffer_lock" by simp_all
    from assms(1) have nz: "tx_buf k \<noteq> 0" by (simp add: wf_platform_def)
    define s1 where "s1 = s\<lparr>locked := (locked s)(Buffer_lock := True),
                       trace := trace s @ [Lock Buffer_lock],
                       mem := copied (tx_buf k) data len (mem s)\<rparr>"
    define d where "d = direct_i2c_write_bytes k dev addr (tx_buf k) len flags s1"
    define res where "res = i2c_write_bytes k dev addr data len flags s"
    have res: "res = then_do (direct_i2c_write_bytes k dev addr (tx_buf k) len flags)
       (\<lambda>ret. then_do (mutex_unlock Buffer_lock) (\<lambda>_. return ret)) s1"
      unfolding res_def s1_def by (rule i2c_write_bytes_staged [OF nr assms(3,4) u])
    from staged_frame [OF assms(2) nz assms(3-5) u,
        where m = "copied (tx_buf k) data len (mem s)" and addr = addr]
    obtain post where post: "list_all (io_event k dev) post"
      and new: "new_events s (snd res) =
         Lock Buffer_lock # write_setup k dev addr (tx_buf k) len flags
           @ wait_events k dev (write_success_flag k flags) s @ post
           @ (case fst res of Val x \<Rightarrow> [Unlock Buffer_lock] | Halt h \<Rightarrow> [])"
      and m: "mem (snd res) = copied (tx_buf k) data len (mem s)"
      and f: "fst res = fst d"
      unfolding res s1_def [symmetric] d_def [symmetric] by blast
    have sn: "snd res = (case fst d of
                            Val r \<Rightarrow> (snd d)\<lparr>locked := (locked (snd d))(Buffer_lock := False),
                                             trace := trace (snd d) @ [Unlock Buffer_lock]\<rparr>
                          | Halt h \<Rightarrow> snd d)"
      unfolding res unlock_after d_def [symmetric]
      by (cases d; cases "fst d") auto
    have tail: "writes_to x (case fst res of Val x \<Rightarrow> [Unlock Buffer_lock] | Halt h \<Rightarrow> []) = []"
      for x
      by (cases "fst res") simp_all
    have w: "writes_to (reg k dev TXD_PTR_INDEX) (new_events s (snd res)) = [tx_buf k]"
      "writes_to (reg k dev TXD_MAXCNT_INDEX) (new_events s (snd res)) = [len]"
      by (simp_all add: new writes_to_append writes_to_write_setup [OF assms(1)]
          writes_to_wait [OF assms(1)] writes_to_io [OF assms(1) post] tail n8)
    have pay: "\<forall>i. i < len \<longrightarrow> mem (snd res) (tx_buf k + i) = mem s (data + i)"
      by (simp add: m copied_inside)
    from f sn post new w pay
    show "let res = i2c_write_bytes k dev addr data len flags s;
                new = new_events s (snd res);
                s1 = s\<lparr>locked := (locked s)(Buffer_lock := True),
                       trace := trace s @ [Lock Buffer_lock],
                       mem := copied (tx_buf k) data len (mem s)\<rparr>;
                d = direct_i2c_write_bytes k dev addr (tx_buf k) len flags s1
            in fst res = fst d
             \<and> snd res = (case fst d of
                            Val r \<Rightarrow> (snd d)\<lparr>locked := (locked (snd d))(Buffer_lock := False),
                                             trace := trace (snd d) @ [Unlock Buffer_lock]\<rparr>
                          | Halt h \<Rightarrow> snd d)
             \<and> (\<exists>post. list_all (io_event k dev) post
                   \<and> new = Lock Buffer_lock # write_setup k dev addr (tx_buf k) len flags
                       @ wait_events k dev (write_success_flag k flags) s @ post
                       @ (case fst res of Val x \<Rightarrow> [Unlock Buffer_lock] | Halt h \<Rightarrow> []))
             \<and> writes_to (reg k dev TXD_PTR_INDEX) new = [tx_buf k]
             \<and> writes_to (reg k dev TXD_MAXCNT_INDEX) new = [len]
             \<and> (\<forall>i. i < len \<longrightarrow> mem (snd res) (tx_buf k + i) = mem s (data + i))"
      unfolding Let_def res_def [symmetric] s1_def [symmetric] d_def [symmetric]
      by blast
  qed
qed

text \<open>
  Two bytes written from RAM (0x20000100) go out from there; the same two bytes in
  flash (0x1000) go out from the transaction buffer, which then holds them.
\<close>

theorem plain_write_direct_or_staged_witness:
  "wf_platform dwm1001 \<and> (0 :: nat) < I2C_NUMOF dwm1001 \<and> (0 :: 32 word) < 2
   \<and> (2 :: 32 word) < 256
   \<and> (0 :: 8 word) AND (I2C_NOSTART dwm1001 OR I2C_ADDR10 dwm1001) = 0
   \<and> in_ram dwm1001 0x20000100 \<and> (0x20000100 :: 32 word) \<noteq> 0
   \<and> \<not> in_ram dwm1001 0x1000
   \<and> \<not> locked (idle (bytes_at 0x1000 [0xAA, 0xBB]) [1, 0]) Buffer_lock
   \<and> writes_to (reg dwm1001 0 TXD_PTR_INDEX)
        (new_events (idle (bytes_at 0x20000100 [0xAA, 0xBB]) [1, 0])
           (snd (i2c_write_bytes dwm1001 0 0x50 0x20000100 2 0
                   (idle (bytes_at 0x20000100 [0xAA, 0xBB]) [1, 0])))) = [0x20000100]
   \<and> writes_to (reg dwm1001 0 TXD_PTR_INDEX)
        (new_events (idle (bytes_at 0x1000 [0xAA, 0xBB]) [1, 0])
           (snd (i2c_write_bytes dwm1001 0 0x50 0x1000 2 0
                   (idle (bytes_at 0x1000 [0xAA, 0xBB]) [1, 0])))) = [0x20000400]
   \<and> map (mem (snd (i2c_write_bytes dwm1001 0 0x50 0x1000 2 0
                       (idle (bytes_at 0x1000 [0xAA, 0xBB]) [1, 0]))))
         [0x20000400, 0x20000401] = [0xAA, 0xBB]"
proof -
  let ?r = "idle (bytes_at 0x20000100 [0xAA, 0xBB]) [1, 0]"
  let ?f = "idle (bytes_at 0x1000 [0xAA, 0xBB]) [1, 0]"
  let ?f' = "snd (i2c_write_bytes dwm1001 0 0x50 0x1000 2 0 ?f)"
  have h: "(0 :: 32 word) < 2" "(2 :: 32 word) < 256"
    "(0 :: 8 word) AND (I2C_NOSTART dwm1001 OR I2C_ADDR10 dwm1001) = 0"
    by (simp_all add: dwm1001_fields)
  have r: "in_ram dwm1001 0x20000100" "(0x20000100 :: 32 word) \<noteq> 0" "\<not> in_ram dwm1001 0x1000"
    "\<not> locked ?f Buffer_lock"
    by (simp_all add: in_ram_def dwm1001_fields idle_def)
  note T = plain_write_direct_or_staged [OF wf_dwm1001 contract_dwm1001 h,
      where addr = "0x50", unfolded Let_def]
  from T [where s = ?r and data = "0x20000100"] r
  have a: "writes_to (reg dwm1001 0 TXD_PTR_INDEX)
        (new_events ?r (snd (i2c_write_bytes dwm1001 0 0x50 0x20000100 2 0 ?r))) = [0x20000100]"
    by blast
  from T [where s = ?f and data = "0x1000"] r
  have b: "writes_to (reg dwm1001 0 TXD_PTR_INDEX) (new_events ?f ?f') = [tx_buf dwm1001]"
    and p: "i < 2 \<Longrightarrow> mem ?f' (tx_buf dwm1001 + i) = mem ?f (0x1000 + i)" for i
    by blast+
  from p [of 0] p [of 1] have c: "mem ?f' 0x20000400 = 0xAA" "mem ?f' 0x20000401 = 0xBB"
    by (simp_all add: dwm1001_fields idle_def bytes_at_def)
  from wf_dwm1001 contract_dwm1001 h r a b c show ?thesis
    by (simp add: dwm1001_fields)
qed

subsection \<open>Null data pointer\<close>

text \<open>
  C9 does not hold for a plain write from a null pointer. Address 0 is outside RAM, so
  \<^verbatim>\<open>i2c_write_bytes\<close> takes the staging path: it asserts the length only, copies from
  address 0 into the transaction buffer, and \<^verbatim>\<open>direct_i2c_write_bytes\<close> then asserts
  the pointer it is given, which is the buffer. The byte found at address 0 is
  transmitted and the call returns 0. The other three operations, and
  \<^verbatim>\<open>direct_i2c_write_bytes\<close> itself, fail their assertion on the same arguments.
\<close>

theorem write_from_null_is_transmitted:
  "\<not> in_ram dwm1001 0
   \<and> fst (i2c_write_bytes dwm1001 0 0x50 0 1 0 (idle (bytes_at 0 [0x77]) [1, 0])) = Val 0
   \<and> mem (snd (i2c_write_bytes dwm1001 0 0x50 0 1 0 (idle (bytes_at 0 [0x77]) [1, 0])))
        (tx_buf dwm1001) = 0x77
   \<and> fst (direct_i2c_write_bytes dwm1001 0 0x50 0 1 0 (idle (bytes_at 0 [0x77]) [1, 0]))
       = Halt Assert_failed
   \<and> fst (i2c_write_regs dwm1001 0 0x50 0x10 0 1 0 (idle (bytes_at 0 [0x77]) [1, 0]))
       = Halt Assert_failed
   \<and> fst (i2c_read_bytes dwm1001 0 0x50 0 1 0 (idle (bytes_at 0 [0x77]) [1, 0]))
       = Halt Assert_failed
   \<and> fst (i2c_read_regs dwm1001 0 0x50 0x10 0 1 0 (idle (bytes_at 0 [0x77]) [1, 0]))
       = Halt Assert_failed"
  by (simp add: run steps prims)

end
